theory Spec2Isabelle
  imports Main "HOL-Library.Word"
begin

unbundle bit_operations_syntax

section \<open>gitversion: the version-resolution core of \<^verbatim>\<open>pkg/version/version.go\<close>\<close>

text \<open>
  Go strings are byte sequences; they are modelled as \<^typ>\<open>string\<close>, whose characters are
  bytes. String equality in Go (\<^verbatim>\<open>==\<close>) is equality of the byte sequences.
\<close>

subsection \<open>Branch slug (\<^verbatim>\<open>createBranchSlug\<close>)\<close>

text \<open>
  \<^verbatim>\<open>strings.ReplaceAll(s, old, new)\<close> for a one-byte \<^verbatim>\<open>old\<close> and a one-byte \<^verbatim>\<open>new\<close>,
  the only way the source calls it.
\<close>

definition ReplaceAll :: "string \<Rightarrow> char \<Rightarrow> char \<Rightarrow> string" where
  "ReplaceAll s old new = map (\<lambda>c. if c = old then new else c) s"

text \<open>
  The character class \<^verbatim>\<open>[a-zA-Z0-9-]\<close> whose complement the regular expression
  \<^verbatim>\<open>[^a-zA-Z0-9-]+\<close> matches. A byte above 127 is part of a non-ASCII rune (or an invalid
  encoding, read as U+FFFD), which is outside the class.
\<close>

definition slug_char :: "char \<Rightarrow> bool" where
  "slug_char c =
     (let n = (of_char c :: nat) in
        (97 \<le> n \<and> n \<le> 122) \<or> (65 \<le> n \<and> n \<le> 90) \<or> (48 \<le> n \<and> n \<le> 57) \<or> n = 45)"

text \<open>
  \<^verbatim>\<open>reg.ReplaceAllString(slug, "")\<close> for \<^verbatim>\<open>reg = [^a-zA-Z0-9-]+\<close>: scanning from the
  left, every maximal run of bytes outside the class is one match and is replaced by
  the empty string; bytes of the class are copied.
\<close>

function ReplaceAllString_empty :: "string \<Rightarrow> string" where
  "ReplaceAllString_empty [] = []"
| "ReplaceAllString_empty (c # cs) =
     (if slug_char c then c # ReplaceAllString_empty cs
      else ReplaceAllString_empty (dropWhile (\<lambda>x. \<not> slug_char x) cs))"
  by pat_completeness auto
termination
  by (relation "measure length") (auto simp: length_dropWhile_le less_Suc_eq_le)

definition createBranchSlug :: "string \<Rightarrow> string" where
  "createBranchSlug branch =
     (let slug = ReplaceAll branch (CHR ''/'') (CHR ''-'');
          slug = ReplaceAll slug (CHR ''_'') (CHR ''-'')
      in ReplaceAllString_empty slug)"

subsection \<open>Hashes and number formatting\<close>

text \<open>
  \<^verbatim>\<open>plumbing.Hash\<close> is \<^verbatim>\<open>[20]byte\<close>: 160 bits, the first byte the most significant.
  \<^verbatim>\<open>Hash.String()\<close> is the lower-case hexadecimal encoding, two digits per byte, so 40
  characters; \<^verbatim>\<open>[:7]\<close> of it never goes out of range.
\<close>

type_synonym hash = "160 word"

definition hexdigit :: "nat \<Rightarrow> char" where
  "hexdigit n = ''0123456789abcdef'' ! (n mod 16)"

definition hash_String :: "hash \<Rightarrow> string" where
  "hash_String h = map (\<lambda>i. hexdigit (unat (drop_bit (4 * (39 - i)) h) mod 16)) [0..<40]"

definition digit_char :: "nat \<Rightarrow> char" where
  "digit_char n = ''0123456789'' ! (n mod 10)"

function decimal :: "nat \<Rightarrow> string" where
  "decimal n = (if n < 10 then [digit_char n] else decimal (n div 10) @ [digit_char (n mod 10)])"
  by pat_completeness auto
termination
  by (relation "measure id") auto

declare decimal.simps [simp del]

text \<open>
  The verb \<^verbatim>\<open>%d\<close> of \<^verbatim>\<open>fmt.Sprintf\<close> on a Go \<^verbatim>\<open>int\<close>. The only value printed this way
  is the walk's counter, which starts at 0 and grows by one per commit visited; it stays
  far below \<open>2\<^sup>6\<^sup>3\<close>, so the counter is an \<^typ>\<open>int\<close> here.
\<close>

definition fmt_d :: "int \<Rightarrow> string" where
  "fmt_d x = (if x < 0 then CHR ''-'' # decimal (nat (- x)) else decimal (nat x))"

text \<open>
  \<^verbatim>\<open>appendInt(b, x, width)\<close> of package \<^verbatim>\<open>time\<close>: the decimal digits of \<open>x\<close>, padded
  with zeros on the left to at least \<open>width\<close> digits, after a minus sign when \<open>x\<close> is
  negative. \<^verbatim>\<open>Time.Format\<close> renders the year with width 4 and the other fields with
  width 2.
\<close>

definition appendInt :: "int \<Rightarrow> nat \<Rightarrow> string" where
  "appendInt x width =
     (let ds = decimal (nat \<bar>x\<bar>)
      in (if x < 0 then [CHR ''-''] else []) @ replicate (width - length ds) (CHR ''0'') @ ds)"

text \<open>
  What \<^verbatim>\<open>time.Now().UTC()\<close> reports: the fields of the UTC date and clock
  (\<^verbatim>\<open>Year()\<close>, \<^verbatim>\<open>Month()\<close>, ...).
\<close>

record Time =
  Year :: int
  Month :: int
  Day :: int
  Hour :: int
  Minute :: int
  Second :: int

text \<open>\<^verbatim>\<open>t.Format("20060102150405")\<close>\<close>

definition Format_compact :: "Time \<Rightarrow> string" where
  "Format_compact t =
     appendInt (Year t) 4 @ appendInt (Month t) 2 @ appendInt (Day t) 2 @
     appendInt (Hour t) 2 @ appendInt (Minute t) 2 @ appendInt (Second t) 2"

text \<open>\<^verbatim>\<open>t.Format("2006-01-02T15:04:05Z")\<close>\<close>

definition Format_iso :: "Time \<Rightarrow> string" where
  "Format_iso t =
     appendInt (Year t) 4 @ ''-'' @ appendInt (Month t) 2 @ ''-'' @ appendInt (Day t) 2 @ ''T'' @
     appendInt (Hour t) 2 @ '':'' @ appendInt (Minute t) 2 @ '':'' @ appendInt (Second t) 2 @ ''Z''"

subsection \<open>The repository as go-git presents it\<close>

text \<open>
  The source reads the repository through go-git only. Each call it makes is a field
  of the record below, holding what the call returns; an error return is \<open>Inl\<close>.
\<close>

datatype lib_error = LibError string

text \<open>
  A \<^verbatim>\<open>*plumbing.Reference\<close>, by the three methods the source calls on it:
  \<^verbatim>\<open>Hash()\<close>, \<^verbatim>\<open>Name().Short()\<close> and \<^verbatim>\<open>Name().IsBranch()\<close>.
\<close>

record Reference =
  ref_Hash :: hash
  ref_Short :: string
  ref_IsBranch :: bool

text \<open>
  A \<^verbatim>\<open>storer.ReferenceIter\<close>: the references \<^verbatim>\<open>ForEach\<close> passes to its callback, in
  order, and the error \<^verbatim>\<open>ForEach\<close> returns after them when the callback itself
  returns \<^verbatim>\<open>nil\<close> every time (as both callbacks of the source do).
\<close>

record ReferenceIter =
  iter_refs :: "Reference list"
  iter_err :: "lib_error option"

text \<open>
  An \<^verbatim>\<open>object.CommitIter\<close>: the hashes (\<^verbatim>\<open>commit.Hash\<close>) of the commits it yields, in
  order, until it is exhausted or fails. The source discards the error of this
  \<^verbatim>\<open>ForEach\<close>, so the model does not record it.
\<close>

type_synonym CommitIter = "hash list"

datatype StatusCode =
  Unmodified | Untracked | Modified | Added | Deleted | Renamed | Copied | UpdatedButUnmerged

record FileStatus =
  Staging :: StatusCode
  Worktree :: StatusCode

text \<open>
  \<^verbatim>\<open>worktree.Status()\<close> returns a \<^verbatim>\<open>git.Status\<close>, a Go map from path to
  \<^verbatim>\<open>*FileStatus\<close>. The list is the values in the order \<^verbatim>\<open>range\<close> visits them.
\<close>

record Worktree_handle =
  wt_Status :: "lib_error + FileStatus list"

record Repository =
  repo_Tags :: "lib_error + ReferenceIter"
  repo_Log :: "hash \<Rightarrow> lib_error + CommitIter"
  repo_Head :: "lib_error + Reference"
  repo_Reference_origin_HEAD :: "lib_error + Reference"
  repo_References :: "lib_error + ReferenceIter"
  repo_Worktree :: "lib_error + Worktree_handle"
  repo_TagObject :: "hash \<Rightarrow> lib_error + hash"

text \<open>
  \<^const>\<open>repo_Log\<close> is \<^verbatim>\<open>repo.Log(&git.LogOptions{From: hash})\<close>;
  \<^const>\<open>repo_Reference_origin_HEAD\<close> is
  \<^verbatim>\<open>repo.Reference(plumbing.NewRemoteHEADReferenceName("origin"), true)\<close>, whose
  reference is never \<^verbatim>\<open>nil\<close> when the error is. \<^const>\<open>repo_TagObject\<close> is
  \<^verbatim>\<open>repo.TagObject(h)\<close> followed by \<^verbatim>\<open>Commit()\<close>: for the hash of an annotated tag
  object, the commit the tag names; an error for any other hash. The source never calls
  it.
\<close>

subsection \<open>\<^verbatim>\<open>detectDefaultBranch\<close>\<close>

definition HasPrefix :: "string \<Rightarrow> string \<Rightarrow> bool" where
  "HasPrefix s p = (take (length p) s = p)"

definition TrimPrefix :: "string \<Rightarrow> string \<Rightarrow> string" where
  "TrimPrefix s p = (if HasPrefix s p then drop (length p) s else s)"

definition existingBranches :: "ReferenceIter \<Rightarrow> string list" where
  "existingBranches refs = map ref_Short (filter ref_IsBranch (iter_refs refs))"

definition detectDefaultBranch :: "Repository \<Rightarrow> string" where
  "detectDefaultBranch repo =
     (case repo_Reference_origin_HEAD repo of
        Inr ref \<Rightarrow>
          (let refName = ref_Short ref
           in if HasPrefix refName ''origin/'' then TrimPrefix refName ''origin/'' else refName)
      | Inl _ \<Rightarrow>
          (case repo_References repo of
             Inr refs \<Rightarrow>
               (if ''main'' \<in> set (existingBranches refs) then ''main''
                else if ''master'' \<in> set (existingBranches refs) then ''master''
                else ''main'')
           | Inl _ \<Rightarrow> ''main''))"

subsection \<open>\<^verbatim>\<open>hasUncommittedChanges\<close>\<close>

fun status_loop :: "FileStatus list \<Rightarrow> bool" where
  "status_loop [] = False"
| "status_loop (fileStatus # rest) =
     (if Staging fileStatus \<noteq> Untracked \<and> Staging fileStatus \<noteq> Unmodified then True
      else if Worktree fileStatus \<noteq> Untracked \<and> Worktree fileStatus \<noteq> Unmodified then True
      else status_loop rest)"

definition hasUncommittedChanges :: "Repository \<Rightarrow> bool" where
  "hasUncommittedChanges repo =
     (case repo_Worktree repo of
        Inl _ \<Rightarrow> False
      | Inr worktree \<Rightarrow>
          (case wt_Status worktree of
             Inl _ \<Rightarrow> False
           | Inr status \<Rightarrow> status_loop status))"

subsection \<open>\<^verbatim>\<open>getGitDescribe\<close>\<close>

text \<open>
  The callback of \<^verbatim>\<open>tagRefs.ForEach\<close> stores \<^verbatim>\<open>tagMap[ref.Hash()] = ref.Name().Short()\<close>
  for each tag reference in turn; a later reference with the same hash overwrites an
  earlier one. The Go map is only indexed afterwards, never ranged over.
\<close>

definition buildTagMap :: "Reference list \<Rightarrow> (hash \<rightharpoonup> string)" where
  "buildTagMap refs = foldl (\<lambda>tagMap ref. tagMap(ref_Hash ref \<mapsto> ref_Short ref)) Map.empty refs"

text \<open>
  The callback of \<^verbatim>\<open>commitIter.ForEach\<close>: at a commit that is a key of the map it sets
  \<^verbatim>\<open>foundTag\<close> and stops the iteration; at any other commit it increments
  \<^verbatim>\<open>distance\<close>. The result is \<^verbatim>\<open>(foundTag, distance)\<close> after the iteration.
\<close>

fun walkLog :: "(hash \<rightharpoonup> string) \<Rightarrow> hash list \<Rightarrow> int \<Rightarrow> string \<times> int" where
  "walkLog tagMap [] distance = ('''', distance)"
| "walkLog tagMap (commit # rest) distance =
     (case tagMap commit of
        Some tagName \<Rightarrow> (tagName, distance)
      | None \<Rightarrow> walkLog tagMap rest (distance + 1))"

definition getGitDescribe :: "Repository \<Rightarrow> hash \<Rightarrow> string \<times> string" where
  "getGitDescribe repo h =
     (case repo_Tags repo of
        Inl _ \<Rightarrow> ('''', '''')
      | Inr tagRefs \<Rightarrow>
          (let tagMap = buildTagMap (iter_refs tagRefs) in
           case iter_err tagRefs of
             Some _ \<Rightarrow> ('''', '''')
           | None \<Rightarrow>
               (case tagMap h of
                  Some tagName \<Rightarrow> (tagName, tagName)
                | None \<Rightarrow>
                    (case repo_Log repo h of
                       Inl _ \<Rightarrow> ('''', '''')
                     | Inr commitIter \<Rightarrow>
                         (let (foundTag, distance) = walkLog tagMap commitIter 0 in
                          if foundTag \<noteq> '''' then
                            (let shortHash = take 7 (hash_String h);
                                 describe = foundTag @ ''-'' @ fmt_d distance @ ''-g'' @ shortHash
                             in (describe, foundTag))
                          else ('''', ''''))))))"

subsection \<open>\<^verbatim>\<open>parentDir\<close> and the walk up to the repository root\<close>

text \<open>\<^verbatim>\<open>strings.TrimRight(s, "/")\<close> and \<^verbatim>\<open>strings.LastIndex(s, "/")\<close>, for a one-byte argument.\<close>

definition TrimRight :: "string \<Rightarrow> char \<Rightarrow> string" where
  "TrimRight s c = rev (dropWhile (\<lambda>x. x = c) (rev s))"

fun LastIndex :: "string \<Rightarrow> char \<Rightarrow> int" where
  "LastIndex [] c = - 1"
| "LastIndex (x # xs) c =
     (let r = LastIndex xs c in if 0 \<le> r then r + 1 else if x = c then 0 else - 1)"

definition parentDir :: "string \<Rightarrow> string" where
  "parentDir path =
     (if path = ''/'' then ''/''
      else
        (let path' = TrimRight path (CHR ''/'');
             idx = LastIndex path' (CHR ''/'')
         in if idx \<le> 0 then ''/'' else take (nat idx) path'))"

text \<open>
  The process's surroundings: \<^verbatim>\<open>filepath.Abs\<close>, \<^verbatim>\<open>os.Stat\<close> (a \<^verbatim>\<open>FileInfo\<close> by the two
  tests the source makes, \<^verbatim>\<open>IsDir()\<close> and \<^verbatim>\<open>Mode().IsRegular()\<close>), \<^verbatim>\<open>git.PlainOpen\<close>, and
  the clock: \<^verbatim>\<open>time_Now w n\<close> is what the \<open>n\<close>-th call of \<^verbatim>\<open>time.Now().UTC()\<close> returns,
  counted from 0.
\<close>

record FileInfo =
  fi_IsDir :: bool
  fi_IsRegular :: bool

record World =
  filepath_Abs :: "string \<Rightarrow> lib_error + string"
  os_Stat :: "string \<Rightarrow> lib_error + FileInfo"
  git_PlainOpen :: "string \<Rightarrow> lib_error + Repository"
  time_Now :: "nat \<Rightarrow> Time"

text \<open>The test \<^verbatim>\<open>err == nil && (fi.IsDir() || fi.Mode().IsRegular())\<close> of the loop.\<close>

definition is_git_entry :: "lib_error + FileInfo \<Rightarrow> bool" where
  "is_git_entry r = (case r of Inl _ \<Rightarrow> False | Inr fi \<Rightarrow> fi_IsDir fi \<or> fi_IsRegular fi)"

lemma LastIndex_less: "LastIndex s c < int (length s)"
  by (induction s) (auto simp: Let_def)

lemma length_TrimRight: "length (TrimRight s c) \<le> length s"
  by (simp add: TrimRight_def length_dropWhile_le [of _ "rev s", simplified])

lemma parentDir_shorter:
  assumes "parentDir p \<noteq> p"
  shows "parentDir p = ''/'' \<or> length (parentDir p) < length p"
proof (cases "p = ''/'' \<or> LastIndex (TrimRight p (CHR ''/'')) (CHR ''/'') \<le> 0")
  case True
  then show ?thesis by (auto simp: parentDir_def Let_def)
next
  case False
  let ?t = "TrimRight p (CHR ''/'')"
  have "nat (LastIndex ?t (CHR ''/'')) < length ?t"
    using LastIndex_less [of ?t "CHR ''/''"] False by linarith
  then have "length (take (nat (LastIndex ?t (CHR ''/''))) ?t) < length p"
    using length_TrimRight [of p "CHR ''/''"] by simp
  with False show ?thesis by (simp add: parentDir_def Let_def)
qed

text \<open>
  The \<^verbatim>\<open>for\<close> loop of \<^verbatim>\<open>GetVersionInfo\<close>: \<open>Some gitRoot\<close> at the \<^verbatim>\<open>break\<close>, \<open>None\<close>
  where the source returns the "no .git found" error.
\<close>

function findGitRoot :: "(string \<Rightarrow> lib_error + FileInfo) \<Rightarrow> string \<Rightarrow> string option" where
  "findGitRoot stat absPath =
     (if is_git_entry (stat (absPath @ ''/.git'')) then Some absPath
      else
        (let parent = parentDir absPath
         in if parent = absPath then None else findGitRoot stat parent))"
  by pat_completeness auto
termination
proof (relation "measure (\<lambda>(stat, p). if p = ''/'' then 0 else Suc (length p))")
  show "wf (measure (\<lambda>(stat, p). if p = ''/'' then 0 else Suc (length p)))"
    by simp
next
  fix stat :: "string \<Rightarrow> lib_error + FileInfo" and absPath parent :: string
  assume "parent = parentDir absPath" and "parent \<noteq> absPath"
  then have ne: "parentDir absPath \<noteq> absPath" by simp
  then have "absPath \<noteq> ''/''" by (auto simp: parentDir_def)
  with parentDir_shorter [OF ne] \<open>parent = parentDir absPath\<close>
  show "((stat, parent), (stat, absPath)) \<in> measure (\<lambda>(stat, p). if p = ''/'' then 0 else Suc (length p))"
    by auto
qed

declare findGitRoot.simps [simp del]

subsection \<open>\<^verbatim>\<open>GetVersionInfo\<close>\<close>

record Info =
  Version :: string
  GitCommit :: string
  GitCommitShort :: string
  GitBranch :: string
  GitBranchSlug :: string
  GitDescribe :: string
  LatestTag :: string
  BuildTime :: string
  IsDirty :: bool
  DefaultBranch :: string

text \<open>
  The four error returns of \<^verbatim>\<open>GetVersionInfo\<close>, in source order: "failed to get absolute
  path", "failed to open repository: no .git found from ... upwards" (with the path the
  walk started from), "failed to open repository" and "failed to get HEAD".
\<close>

datatype version_error =
  ErrAbsPath lib_error
| ErrNoGitFound string
| ErrOpenRepository lib_error
| ErrGetHEAD lib_error

definition GetVersionInfo :: "World \<Rightarrow> string \<Rightarrow> string \<Rightarrow> version_error + Info" where
  "GetVersionInfo w repoPath defaultBranch =
     (case filepath_Abs w repoPath of
        Inl err \<Rightarrow> Inl (ErrAbsPath err)
      | Inr absPath \<Rightarrow>
     (case findGitRoot (os_Stat w) absPath of
        None \<Rightarrow> Inl (ErrNoGitFound absPath)
      | Some gitRoot \<Rightarrow>
     (case git_PlainOpen w gitRoot of
        Inl err \<Rightarrow> Inl (ErrOpenRepository err)
      | Inr repo \<Rightarrow>
     (let buildTime = Format_iso (time_Now w 0);
          defaultBranch = (if defaultBranch = '''' then detectDefaultBranch repo else defaultBranch)
      in
      case repo_Head repo of
        Inl err \<Rightarrow> Inl (ErrGetHEAD err)
      | Inr head \<Rightarrow>
     (let gitCommit = hash_String (ref_Hash head);
          gitCommitShort = take 7 (hash_String (ref_Hash head));
          gitBranch = (if ref_IsBranch head then ref_Short head else ''HEAD'');
          gitBranchSlug = createBranchSlug gitBranch;
          (gitDescribe, latestTag) = getGitDescribe repo (ref_Hash head);
          isDirty = hasUncommittedChanges repo;
          version =
            (if gitBranch = defaultBranch then
               (if gitDescribe \<noteq> '''' then gitDescribe
                else gitBranchSlug @ ''-g'' @ gitCommitShort)
             else gitBranchSlug @ ''-g'' @ gitCommitShort);
          version =
            (if isDirty then version @ ''-'' @ Format_compact (time_Now w 1) else version)
      in Inr \<lparr>Version = version, GitCommit = gitCommit, GitCommitShort = gitCommitShort,
               GitBranch = gitBranch, GitBranchSlug = gitBranchSlug, GitDescribe = gitDescribe,
               LatestTag = latestTag, BuildTime = buildTime, IsDirty = isDirty,
               DefaultBranch = defaultBranch\<rparr>)))))"

subsection \<open>Notions used to state the properties\<close>

text \<open>
  The ranges of the date and clock fields of a \<^verbatim>\<open>time.Time\<close> in UTC whose year has at most
  four digits (years 0 to 9999).
\<close>

definition calendar_time :: "Time \<Rightarrow> bool" where
  "calendar_time t =
     (0 \<le> Year t \<and> Year t \<le> 9999 \<and> 1 \<le> Month t \<and> Month t \<le> 12 \<and> 1 \<le> Day t \<and> Day t \<le> 31 \<and>
      0 \<le> Hour t \<and> Hour t \<le> 23 \<and> 0 \<le> Minute t \<and> Minute t \<le> 59 \<and> 0 \<le> Second t \<and> Second t \<le> 59)"

text \<open>The same surroundings, except that every repository opened reports \<open>tags\<close> for \<^verbatim>\<open>repo.Tags()\<close>.\<close>

definition with_tags :: "World \<Rightarrow> lib_error + ReferenceIter \<Rightarrow> World" where
  "with_tags w tags =
     w\<lparr>git_PlainOpen :=
         (\<lambda>root. case git_PlainOpen w root of
                    Inl err \<Rightarrow> Inl err
                  | Inr repo \<Rightarrow> Inr (repo\<lparr>repo_Tags := tags\<rparr>))\<rparr>"

text \<open>
  The distance in the specification's words: "the number of commits strictly between the
  found tag and HEAD along the traversal path". On a traversal that starts at \<^verbatim>\<open>HEAD\<close>
  these are the commits after the first one and before the first tagged one.
\<close>

definition commits_strictly_between :: "(hash \<rightharpoonup> string) \<Rightarrow> hash list \<Rightarrow> nat" where
  "commits_strictly_between tagMap path =
     length (takeWhile (\<lambda>c. tagMap c = None) (tl path))"

text \<open>
  The absolute path of the directory reached from \<open>root\<close> by descending through
  \<open>names\<close>, as \<^verbatim>\<open>filepath.Join\<close> renders it: the names appended, each after one \<open>/\<close>,
  and no doubled \<open>/\<close> below the filesystem root.
\<close>

definition join_path :: "string \<Rightarrow> string list \<Rightarrow> string" where
  "join_path root names =
     (if names = [] then root
      else (if root = ''/'' then '''' else root) @ concat (map (\<lambda>n. CHR ''/'' # n) names))"

text \<open>
  The commit a tag reference names. A lightweight tag's reference holds the commit's
  hash; an annotated tag's reference holds the hash of a tag object, and
  \<^const>\<open>repo_TagObject\<close> gives the commit that object names.
\<close>

definition tag_commit :: "Repository \<Rightarrow> Reference \<Rightarrow> hash" where
  "tag_commit repo ref =
     (case repo_TagObject repo (ref_Hash ref) of
        Inr commit \<Rightarrow> commit
      | Inl _ \<Rightarrow> ref_Hash ref)"

text \<open>
  A tag is reachable from \<open>h\<close>: some tag reference names a commit that the log from \<open>h\<close>
  yields (\<open>h\<close> itself included, at distance zero).
\<close>

definition tag_reachable :: "Repository \<Rightarrow> hash \<Rightarrow> bool" where
  "tag_reachable repo h =
     (case repo_Tags repo of
        Inl _ \<Rightarrow> False
      | Inr tagRefs \<Rightarrow>
          (case repo_Log repo h of
             Inl _ \<Rightarrow> False
           | Inr commits \<Rightarrow> \<exists>ref \<in> set (iter_refs tagRefs). tag_commit repo ref \<in> set commits))"


subsection \<open>Example repositories\<close>

text \<open>
  A repository with the given tag references, \<^verbatim>\<open>HEAD\<close>, log from \<^verbatim>\<open>HEAD\<close> and working-tree
  status, no \<^verbatim>\<open>origin/HEAD\<close> and lightweight tags only; and a process started in
  \<^verbatim>\<open>/work/repo/pkg/version\<close>, where \<^verbatim>\<open>/work/repo/.git\<close> is a directory.
\<close>

definition tag_ref :: "string \<Rightarrow> hash \<Rightarrow> Reference" where
  "tag_ref name h = \<lparr>ref_Hash = h, ref_Short = name, ref_IsBranch = False\<rparr>"

definition branch_ref :: "string \<Rightarrow> hash \<Rightarrow> Reference" where
  "branch_ref name h = \<lparr>ref_Hash = h, ref_Short = name, ref_IsBranch = True\<rparr>"

definition example_repo ::
  "Reference list \<Rightarrow> Reference \<Rightarrow> hash list \<Rightarrow> FileStatus list \<Rightarrow> Repository" where
  "example_repo tags head log status =
     \<lparr>repo_Tags = Inr \<lparr>iter_refs = tags, iter_err = None\<rparr>,
      repo_Log = (\<lambda>from. if from = ref_Hash head then Inr log
                          else Inl (LibError ''object not found'')),
      repo_Head = Inr head,
      repo_Reference_origin_HEAD = Inl (LibError ''reference not found''),
      repo_References =
        Inr \<lparr>iter_refs = branch_ref ''main'' (ref_Hash head) # head # tags, iter_err = None\<rparr>,
      repo_Worktree = Inr \<lparr>wt_Status = Inr status\<rparr>,
      repo_TagObject = (\<lambda>h. Inl (LibError ''object not found''))\<rparr>"

definition example_world :: "Repository \<Rightarrow> World" where
  "example_world repo =
     \<lparr>filepath_Abs =
        (\<lambda>p. if p = ''.'' then Inr ''/work/repo/pkg/version''
              else if HasPrefix p ''/'' then Inr p
              else Inr (''/work/repo/pkg/version/'' @ p)),
      os_Stat =
        (\<lambda>p. if p = ''/work/repo/.git'' then Inr \<lparr>fi_IsDir = True, fi_IsRegular = False\<rparr>
              else Inl (LibError ''no such file or directory'')),
      git_PlainOpen =
        (\<lambda>root. if root = ''/work/repo'' then Inr repo
                 else Inl (LibError ''repository does not exist'')),
      time_Now =
        (\<lambda>n. \<lparr>Year = 2025, Month = 11, Day = 25, Hour = 11, Minute = 59, Second = 3 + int n\<rparr>)\<rparr>"

text \<open>Six commits, newest first; the oldest is the one the examples tag.\<close>

definition head_commit :: hash where
  "head_commit = 0xe7e38cf7d71fe815c4f3bde53ad3bb23e57f5a5f"

definition tagged_commit :: hash where
  "tagged_commit = 0x0beec7b5ea3f0fdbc95d0dd47f3c5bc275da8a33"

definition example_log :: "hash list" where
  "example_log =
     [head_commit,
      0x4b825dc642cb6eb9a060e54bf8d69288fbee4904,
      0x3c1f0a9d5e7b2468ace013579bdf02468ace1357,
      0x2fd4e1c67a2d28fced849ee1bb76e7391b93eb12,
      0x1a2b3c4d5e6f708192a3b4c5d6e7f8091a2b3c4d,
      tagged_commit]"

definition clean_file :: FileStatus where
  "clean_file = \<lparr>Staging = Unmodified, Worktree = Unmodified\<rparr>"

definition modified_file :: FileStatus where
  "modified_file = \<lparr>Staging = Unmodified, Worktree = Modified\<rparr>"

definition untracked_file :: FileStatus where
  "untracked_file = \<lparr>Staging = Untracked, Worktree = Untracked\<rparr>"

text \<open>
  A repository whose only tag, \<open>v1.0.0\<close>, is an annotated tag of \<^verbatim>\<open>HEAD\<close>
  (\<^verbatim>\<open>git tag -a v1.0.0\<close>): the reference \<^verbatim>\<open>refs/tags/v1.0.0\<close> holds the hash of the tag
  object, and the tag object names the commit.
\<close>

definition tag_object :: hash where
  "tag_object = 0x9fceb02d0ae598e95dc970b74767f19372d61af8"

definition annotated_repo :: Repository where
  "annotated_repo =
     (example_repo [tag_ref ''v1.0.0'' tag_object] (branch_ref ''main'' head_commit)
        [head_commit] [clean_file])
       \<lparr>repo_TagObject :=
          (\<lambda>h. if h = tag_object then Inr head_commit else Inl (LibError ''object not found''))\<rparr>"

section \<open>Properties\<close>

lemma ReplaceAllString_empty_filter: "ReplaceAllString_empty s = filter slug_char s"
proof (induction s rule: ReplaceAllString_empty.induct)
  case 1
  show ?case by simp
next
  case (2 c cs)
  have drop: "filter slug_char (dropWhile (\<lambda>x. \<not> slug_char x) cs) = filter slug_char cs"
    by (induction cs) auto
  show ?case
  proof (cases "slug_char c")
    case True
    with 2 show ?thesis by simp
  next
    case False
    with 2 drop show ?thesis by simp
  qed
qed

lemma slug_char_alphabet:
  "slug_char c \<longleftrightarrow>
     c \<in> set ''abcdefghijklmnopqrstuvwxyzABCDEFGHIJKLMNOPQRSTUVWXYZ0123456789-''"
  by (cases c) (simp add: slug_char_def)

lemma ReplaceAll_twice:
  "ReplaceAll (ReplaceAll s (CHR ''/'') (CHR ''-'')) (CHR ''_'') (CHR ''-'') =
     map (\<lambda>c. if c = CHR ''/'' \<or> c = CHR ''_'' then CHR ''-'' else c) s"
  by (induction s) (auto simp: ReplaceAll_def)

text \<open>
  Claim C4. For every branch name, \<^const>\<open>createBranchSlug\<close> first replaces every \<open>/\<close>
  and every \<open>_\<close> with \<open>-\<close> and then deletes, without replacement, every character that
  is not alphanumeric or \<open>-\<close>; so the slug contains only characters of \<open>[A-Za-z0-9-]\<close>,
  and the slug of \<open>feature/test@123\<close> is \<open>feature-test123\<close>.
\<close>

theorem createBranchSlug_replace_then_delete:
  "createBranchSlug branch =
     filter (\<lambda>c. c \<in> set ''abcdefghijklmnopqrstuvwxyzABCDEFGHIJKLMNOPQRSTUVWXYZ0123456789-'')
       (map (\<lambda>c. if c = CHR ''/'' \<or> c = CHR ''_'' then CHR ''-'' else c) branch)
   \<and> set (createBranchSlug branch)
       \<subseteq> set ''abcdefghijklmnopqrstuvwxyzABCDEFGHIJKLMNOPQRSTUVWXYZ0123456789-''
   \<and> createBranchSlug ''feature/test@123'' = ''feature-test123''"
proof -
  have eq: "createBranchSlug b =
     filter (\<lambda>c. c \<in> set ''abcdefghijklmnopqrstuvwxyzABCDEFGHIJKLMNOPQRSTUVWXYZ0123456789-'')
       (map (\<lambda>c. if c = CHR ''/'' \<or> c = CHR ''_'' then CHR ''-'' else c) b)" for b
    unfolding createBranchSlug_def Let_def ReplaceAllString_empty_filter ReplaceAll_twice
    by (rule filter_cong) (simp_all only: slug_char_alphabet)
  have sub: "set (createBranchSlug branch)
       \<subseteq> set ''abcdefghijklmnopqrstuvwxyzABCDEFGHIJKLMNOPQRSTUVWXYZ0123456789-''"
    unfolding eq [of branch] by (rule subsetI) (simp only: set_filter mem_Collect_eq)
  have ex: "createBranchSlug ''feature/test@123'' = ''feature-test123''"
    unfolding eq by simp
  from eq [of branch] sub ex show ?thesis by blast
qed

theorem createBranchSlug_replace_then_delete_witness:
  "createBranchSlug ''feature/JIRA-123_update'' = ''feature-JIRA-123-update''
   \<and> createBranchSlug ''a/b_c d!'' = ''a-b-cd''"
proof -
  have one: "createBranchSlug ''feature/JIRA-123_update'' = ''feature-JIRA-123-update''"
    using createBranchSlug_replace_then_delete [of "''feature/JIRA-123_update''"] by simp
  have two: "createBranchSlug ''a/b_c d!'' = ''a-b-cd''"
    using createBranchSlug_replace_then_delete [of "''a/b_c d!''"] by simp
  from one two show ?thesis by simp
qed

subsection \<open>Formatting and the tag map: auxiliary facts\<close>

lemma digit_char_digit: "digit_char n \<in> set ''0123456789''"
  unfolding digit_char_def by (rule nth_mem) simp

lemma decimal_digits: "set (decimal n) \<subseteq> set ''0123456789''"
proof (induction n rule: decimal.induct)
  case (1 n)
  show ?case
  proof (cases "n < 10")
    case True
    then show ?thesis using digit_char_digit [of n] by (subst decimal.simps) simp
  next
    case False
    with 1 digit_char_digit [of "n mod 10"] show ?thesis
      by (subst decimal.simps) simp
  qed
qed

lemma decimal_nonempty: "decimal n \<noteq> []"
  by (subst decimal.simps) simp

lemma decimal_length: "n < 10 ^ k \<Longrightarrow> 0 < k \<Longrightarrow> length (decimal n) \<le> k"
proof (induction n arbitrary: k rule: decimal.induct)
  case (1 n)
  show ?case
  proof (cases "n < 10")
    case True
    with 1(3) show ?thesis by (subst decimal.simps) simp
  next
    case False
    then obtain k' where k: "k = Suc k'" using 1(3) by (cases k) auto
    with False 1(2) have "0 < k'" by (cases k') auto
    moreover from 1(2) k have "n div 10 < 10 ^ k'" by (simp add: less_mult_imp_div_less mult.commute)
    ultimately have "length (decimal (n div 10)) \<le> k'" using 1(1) [OF False] by blast
    with False k show ?thesis by (subst decimal.simps) simp
  qed
qed

lemma appendInt_length:
  assumes "0 \<le> x" "x < 10 ^ k" "0 < k"
  shows "length (appendInt x k) = k \<and> set (appendInt x k) \<subseteq> set ''0123456789''"
proof -
  have "nat \<bar>x\<bar> < 10 ^ k" using assms by (simp add: nat_less_iff)
  then have "length (decimal (nat \<bar>x\<bar>)) \<le> k" using assms(3) by (rule decimal_length)
  moreover have "set (decimal (nat \<bar>x\<bar>)) \<subseteq> set ''0123456789''" by (rule decimal_digits)
  ultimately show ?thesis using assms(1) by (auto simp: appendInt_def Let_def)
qed

lemma hexdigit_hex: "hexdigit n \<in> set ''0123456789abcdef''"
  unfolding hexdigit_def by (rule nth_mem) simp

lemma hash_String_length: "length (hash_String h) = 40"
  by (simp add: hash_String_def)

lemma hash_String_hex: "set (hash_String h) \<subseteq> set ''0123456789abcdef''"
  unfolding hash_String_def using hexdigit_hex by (auto simp del: set_simps)

lemma shortHash_shape:
  "length (take 7 (hash_String h)) = 7 \<and> set (take 7 (hash_String h)) \<subseteq> set ''0123456789abcdef''"
  using hash_String_hex [of h] set_take_subset [of 7 "hash_String h"]
  by (simp add: hash_String_length)

lemma foldl_tagMap:
  "foldl (\<lambda>tagMap ref. tagMap(ref_Hash ref \<mapsto> ref_Short ref)) m refs =
     m ++ map_of (rev (map (\<lambda>ref. (ref_Hash ref, ref_Short ref)) refs))"
  by (induction refs arbitrary: m) (auto simp: map_add_upd_left map_add_def fun_eq_iff split: option.splits)

lemma buildTagMap_map_of:
  "buildTagMap refs = map_of (rev (map (\<lambda>ref. (ref_Hash ref, ref_Short ref)) refs))"
  by (simp add: buildTagMap_def foldl_tagMap)

lemma buildTagMap_dom: "dom (buildTagMap refs) = ref_Hash ` set refs"
  by (simp add: buildTagMap_map_of dom_map_of_conv_image_fst image_image)



lemma walkLog_found:
  assumes "\<forall>x \<in> set pre. tagMap x = None" "tagMap c = Some t"
  shows "walkLog tagMap (pre @ c # rest) d = (t, d + int (length pre))"
  using assms by (induction pre arbitrary: d) auto

lemma walkLog_none:
  assumes "\<forall>x \<in> set cs. tagMap x = None"
  shows "walkLog tagMap cs d = ('''', d + int (length cs))"
  using assms by (induction cs arbitrary: d) auto

lemma walkLog_cases:
  "(\<exists>pre c rest t. cs = pre @ c # rest \<and> (\<forall>x \<in> set pre. tagMap x = None) \<and> tagMap c = Some t
      \<and> walkLog tagMap cs d = (t, d + int (length pre)))
   \<or> ((\<forall>x \<in> set cs. tagMap x = None) \<and> walkLog tagMap cs d = ('''', d + int (length cs)))"
proof (induction cs arbitrary: d)
  case Nil
  then show ?case by simp
next
  case (Cons a cs)
  show ?case
  proof (cases "tagMap a")
    case (Some t)
    then have "a # cs = [] @ a # cs \<and> (\<forall>x \<in> set []. tagMap x = None) \<and> tagMap a = Some t
       \<and> walkLog tagMap (a # cs) d = (t, d + int (length ([]::hash list)))" by simp
    then show ?thesis by blast
  next
    case None
    from Cons [of "d + 1"] show ?thesis
    proof
      assume "\<exists>pre c rest t. cs = pre @ c # rest \<and> (\<forall>x \<in> set pre. tagMap x = None) \<and> tagMap c = Some t
         \<and> walkLog tagMap cs (d + 1) = (t, d + 1 + int (length pre))"
      then obtain pre c rest t where h: "cs = pre @ c # rest" "\<forall>x \<in> set pre. tagMap x = None"
        "tagMap c = Some t" "walkLog tagMap cs (d + 1) = (t, d + 1 + int (length pre))" by blast
      with None have "a # cs = (a # pre) @ c # rest \<and> (\<forall>x \<in> set (a # pre). tagMap x = None)
        \<and> tagMap c = Some t \<and> walkLog tagMap (a # cs) d = (t, d + int (length (a # pre)))" by simp
      then show ?thesis by blast
    next
      assume "(\<forall>x \<in> set cs. tagMap x = None) \<and> walkLog tagMap cs (d + 1) = ('''', d + 1 + int (length cs))"
      with None show ?thesis by simp
    qed
  qed
qed

subsection \<open>What \<^verbatim>\<open>GetVersionInfo\<close> returns once the repository and \<^verbatim>\<open>HEAD\<close> are resolved\<close>

lemma GetVersionInfo_record:
  assumes "filepath_Abs w p = Inr absPath" "findGitRoot (os_Stat w) absPath = Some root"
    "git_PlainOpen w root = Inr repo" "repo_Head repo = Inr head"
  shows "GetVersionInfo w p db = Inr
    \<lparr>Version =
       (if (if ref_IsBranch head then ref_Short head else ''HEAD'') =
             (if db = '''' then detectDefaultBranch repo else db)
           \<and> fst (getGitDescribe repo (ref_Hash head)) \<noteq> ''''
        then fst (getGitDescribe repo (ref_Hash head))
        else createBranchSlug (if ref_IsBranch head then ref_Short head else ''HEAD'') @ ''-g'' @
               take 7 (hash_String (ref_Hash head)))
       @ (if hasUncommittedChanges repo then ''-'' @ Format_compact (time_Now w 1) else ''''),
     GitCommit = hash_String (ref_Hash head),
     GitCommitShort = take 7 (hash_String (ref_Hash head)),
     GitBranch = (if ref_IsBranch head then ref_Short head else ''HEAD''),
     GitBranchSlug = createBranchSlug (if ref_IsBranch head then ref_Short head else ''HEAD''),
     GitDescribe = fst (getGitDescribe repo (ref_Hash head)),
     LatestTag = snd (getGitDescribe repo (ref_Hash head)),
     BuildTime = Format_iso (time_Now w 0),
     IsDirty = hasUncommittedChanges repo,
     DefaultBranch = (if db = '''' then detectDefaultBranch repo else db)\<rparr>"
  unfolding GetVersionInfo_def by (simp add: assms Let_def case_prod_beta)

lemma GetVersionInfo_resolved:
  assumes "filepath_Abs w p = Inr absPath" "findGitRoot (os_Stat w) absPath = Some root"
    "git_PlainOpen w root = Inr repo" "repo_Head repo = Inr head"
  shows "\<exists>info. GetVersionInfo w p db = Inr info
    \<and> GitCommit info = hash_String (ref_Hash head)
    \<and> GitCommitShort info = take 7 (hash_String (ref_Hash head))
    \<and> GitBranch info = (if ref_IsBranch head then ref_Short head else ''HEAD'')
    \<and> GitBranchSlug info = createBranchSlug (GitBranch info)
    \<and> GitDescribe info = fst (getGitDescribe repo (ref_Hash head))
    \<and> LatestTag info = snd (getGitDescribe repo (ref_Hash head))
    \<and> BuildTime info = Format_iso (time_Now w 0)
    \<and> IsDirty info = hasUncommittedChanges repo
    \<and> DefaultBranch info = (if db = '''' then detectDefaultBranch repo else db)
    \<and> Version info =
        (if GitBranch info = DefaultBranch info \<and> GitDescribe info \<noteq> '''' then GitDescribe info
         else GitBranchSlug info @ ''-g'' @ GitCommitShort info)
        @ (if IsDirty info then ''-'' @ Format_compact (time_Now w 1) else '''')"
  unfolding GetVersionInfo_record [OF assms] by simp

lemma GetVersionInfo_Inr_resolved:
  assumes "GetVersionInfo w p db = Inr info"
  shows "\<exists>absPath root repo head. filepath_Abs w p = Inr absPath
    \<and> findGitRoot (os_Stat w) absPath = Some root
    \<and> git_PlainOpen w root = Inr repo \<and> repo_Head repo = Inr head"
proof (cases "filepath_Abs w p")
  case (Inl e)
  with assms show ?thesis by (simp add: GetVersionInfo_def)
next
  case abs: (Inr absPath)
  show ?thesis
  proof (cases "findGitRoot (os_Stat w) absPath")
    case None
    with assms abs show ?thesis by (simp add: GetVersionInfo_def)
  next
    case root: (Some root)
    show ?thesis
    proof (cases "git_PlainOpen w root")
      case (Inl e)
      with assms abs root show ?thesis by (simp add: GetVersionInfo_def)
    next
      case repo: (Inr repo)
      show ?thesis
      proof (cases "repo_Head repo")
        case (Inl e)
        with assms abs root repo show ?thesis by (simp add: GetVersionInfo_def Let_def)
      next
        case (Inr head)
        with abs root repo show ?thesis by blast
      qed
    qed
  qed
qed

lemma GetVersionInfo_Version:
  assumes "GetVersionInfo w p db = Inr info"
  shows "Version info =
        (if GitBranch info = DefaultBranch info \<and> GitDescribe info \<noteq> '''' then GitDescribe info
         else GitBranchSlug info @ ''-g'' @ GitCommitShort info)
        @ (if IsDirty info then ''-'' @ Format_compact (time_Now w 1) else '''')"
proof -
  from GetVersionInfo_Inr_resolved [OF assms] obtain absPath root repo head where
    r: "filepath_Abs w p = Inr absPath" "findGitRoot (os_Stat w) absPath = Some root"
       "git_PlainOpen w root = Inr repo" "repo_Head repo = Inr head" by blast
  from GetVersionInfo_resolved [OF r, of db] assms show ?thesis by auto
qed

subsection \<open>The example surroundings, evaluated\<close>

lemma example_world_root:
  "filepath_Abs (example_world r) ''.'' = Inr ''/work/repo/pkg/version''"
  "filepath_Abs (example_world r) ''/work/repo'' = Inr ''/work/repo''"
  "git_PlainOpen (example_world r) ''/work/repo'' = Inr r"
  by (simp_all add: example_world_def HasPrefix_def)

lemma example_world_findGitRoot:
  "findGitRoot (os_Stat (example_world r)) ''/work/repo/pkg/version'' = Some ''/work/repo''"
  "findGitRoot (os_Stat (example_world r)) ''/work/repo'' = Some ''/work/repo''"
  by code_simp+

lemma example_world_clock:
  "time_Now (example_world r) 1 =
     \<lparr>Year = 2025, Month = 11, Day = 25, Hour = 11, Minute = 59, Second = 4\<rparr>"
  by (simp add: example_world_def)

lemma example_timestamp:
  "Format_compact \<lparr>Year = 2025, Month = 11, Day = 25, Hour = 11, Minute = 59, Second = 4\<rparr>
     = ''20251125115904''"
  by code_simp

lemma example_repo_fields:
  "repo_Tags (example_repo tags head log status) = Inr \<lparr>iter_refs = tags, iter_err = None\<rparr>"
  "repo_Log (example_repo tags head log status) (ref_Hash head) = Inr log"
  "repo_Head (example_repo tags head log status) = Inr head"
  "repo_Worktree (example_repo tags head log status) = Inr \<lparr>wt_Status = Inr status\<rparr>"
  by (simp_all add: example_repo_def)

lemma shortHash_nibbles:
  "take 7 (hash_String h) =
     [hexdigit (unat (drop_bit 156 h) mod 16), hexdigit (unat (drop_bit 152 h) mod 16),
      hexdigit (unat (drop_bit 148 h) mod 16), hexdigit (unat (drop_bit 144 h) mod 16),
      hexdigit (unat (drop_bit 140 h) mod 16), hexdigit (unat (drop_bit 136 h) mod 16),
      hexdigit (unat (drop_bit 132 h) mod 16)]"
proof -
  have "take 7 (hash_String h) =
      map (\<lambda>i. hexdigit (unat (drop_bit (4 * (39 - i)) h) mod 16)) [0..<7]"
    by (simp add: hash_String_def take_map)
  also have "[0..<7] = [0, 1, 2, 3, 4, 5, 6::nat]"
    by (simp add: upt_rec)
  finally show ?thesis by simp
qed

lemma example_short_hashes:
  "take 7 (hash_String head_commit) = ''e7e38cf''"
  "take 7 (hash_String tagged_commit) = ''0beec7b''"
  by (simp_all add: shortHash_nibbles hexdigit_def head_commit_def tagged_commit_def)

subsection \<open>The version composer\<close>

lemma Format_compact_shape:
  assumes "calendar_time t"
  shows "length (Format_compact t) = 14 \<and> set (Format_compact t) \<subseteq> set ''0123456789''"
proof -
  have y: "length (appendInt (Year t) 4) = 4 \<and> set (appendInt (Year t) 4) \<subseteq> set ''0123456789''"
    using assms by (intro appendInt_length) (simp_all add: calendar_time_def)
  have two: "0 \<le> x \<Longrightarrow> x \<le> 59 \<Longrightarrow>
      length (appendInt x 2) = 2 \<and> set (appendInt x 2) \<subseteq> set ''0123456789''" for x
    by (intro appendInt_length) simp_all
  have m: "length (appendInt (Month t) 2) = 2 \<and> set (appendInt (Month t) 2) \<subseteq> set ''0123456789''"
    using assms by (intro two) (simp_all add: calendar_time_def)
  have d: "length (appendInt (Day t) 2) = 2 \<and> set (appendInt (Day t) 2) \<subseteq> set ''0123456789''"
    using assms by (intro two) (simp_all add: calendar_time_def)
  have h: "length (appendInt (Hour t) 2) = 2 \<and> set (appendInt (Hour t) 2) \<subseteq> set ''0123456789''"
    using assms by (intro two) (simp_all add: calendar_time_def)
  have mi: "length (appendInt (Minute t) 2) = 2 \<and> set (appendInt (Minute t) 2) \<subseteq> set ''0123456789''"
    using assms by (intro two) (simp_all add: calendar_time_def)
  have s: "length (appendInt (Second t) 2) = 2 \<and> set (appendInt (Second t) 2) \<subseteq> set ''0123456789''"
    using assms by (intro two) (simp_all add: calendar_time_def)
  from y m d h mi s show ?thesis
    unfolding Format_compact_def by (simp del: set_simps)
qed

text \<open>
  Claim C1. For every resolved repository state the version follows the decision table:
  on the default branch the base version is the describe string when that is non-empty,
  and \<open>{branchSlug}-g{commitShort}\<close> when it is empty; when the tree is dirty the version
  is the base version, one \<open>-\<close> and the 14-digit UTC timestamp \<open>YYYYMMDDHHMMSS\<close>, and when
  it is clean the version is the base version.
\<close>

theorem version_decision_table:
  assumes "GetVersionInfo w repoPath defaultBranch = Inr info"
    and "calendar_time (time_Now w 1)"
  shows "\<exists>baseVersion timestamp.
      (GitBranch info = DefaultBranch info \<and> GitDescribe info \<noteq> '''' \<longrightarrow>
         baseVersion = GitDescribe info)
    \<and> (GitBranch info = DefaultBranch info \<and> GitDescribe info = '''' \<longrightarrow>
         baseVersion = GitBranchSlug info @ ''-g'' @ GitCommitShort info)
    \<and> (GitBranch info \<noteq> DefaultBranch info \<longrightarrow>
         baseVersion = GitBranchSlug info @ ''-g'' @ GitCommitShort info)
    \<and> timestamp = Format_compact (time_Now w 1)
    \<and> length timestamp = 14 \<and> set timestamp \<subseteq> set ''0123456789''
    \<and> (IsDirty info \<longrightarrow> Version info = baseVersion @ ''-'' @ timestamp)
    \<and> (\<not> IsDirty info \<longrightarrow> Version info = baseVersion)"
proof -
  let ?base = "if GitBranch info = DefaultBranch info \<and> GitDescribe info \<noteq> ''''
               then GitDescribe info else GitBranchSlug info @ ''-g'' @ GitCommitShort info"
  let ?ts = "Format_compact (time_Now w 1)"
  have v: "Version info = ?base @ (if IsDirty info then ''-'' @ ?ts else '''')"
    by (rule GetVersionInfo_Version [OF assms(1)])
  have shape: "length ?ts = 14 \<and> set ?ts \<subseteq> set ''0123456789''"
    by (rule Format_compact_shape [OF assms(2)])
  have "(GitBranch info = DefaultBranch info \<and> GitDescribe info \<noteq> '''' \<longrightarrow>
         ?base = GitDescribe info)
    \<and> (GitBranch info = DefaultBranch info \<and> GitDescribe info = '''' \<longrightarrow>
         ?base = GitBranchSlug info @ ''-g'' @ GitCommitShort info)
    \<and> (GitBranch info \<noteq> DefaultBranch info \<longrightarrow>
         ?base = GitBranchSlug info @ ''-g'' @ GitCommitShort info)
    \<and> ?ts = Format_compact (time_Now w 1)
    \<and> length ?ts = 14 \<and> set ?ts \<subseteq> set ''0123456789''
    \<and> (IsDirty info \<longrightarrow> Version info = ?base @ ''-'' @ ?ts)
    \<and> (\<not> IsDirty info \<longrightarrow> Version info = ?base)"
    using v shape by simp
  then show ?thesis by blast
qed

theorem version_decision_table_witness:
  "\<exists>info.
     GetVersionInfo
       (example_world
         (example_repo [tag_ref ''v1.0.0'' tagged_commit] (branch_ref ''main'' tagged_commit)
            [tagged_commit] [modified_file]))
       ''.'' ''main'' = Inr info
     \<and> calendar_time
         (time_Now
           (example_world
             (example_repo [tag_ref ''v1.0.0'' tagged_commit] (branch_ref ''main'' tagged_commit)
                [tagged_commit] [modified_file])) 1)
     \<and> GitBranch info = DefaultBranch info \<and> GitDescribe info = ''v1.0.0'' \<and> IsDirty info
     \<and> Version info = ''v1.0.0-20251125115904''"
proof -
  let ?r = "example_repo [tag_ref ''v1.0.0'' tagged_commit] (branch_ref ''main'' tagged_commit)
              [tagged_commit] [modified_file]"
  let ?w = "example_world ?r"
  have d: "getGitDescribe ?r tagged_commit = (''v1.0.0'', ''v1.0.0'')"
    by (simp add: getGitDescribe_def example_repo_def buildTagMap_def tag_ref_def)
  have dirty: "hasUncommittedChanges ?r"
    by (simp add: hasUncommittedChanges_def example_repo_def modified_file_def)
  have cal: "calendar_time (time_Now ?w 1)"
    unfolding example_world_clock by (simp add: calendar_time_def)
  from GetVersionInfo_resolved
         [where w = ?w and repo = ?r and head = "branch_ref ''main'' tagged_commit"
            and db = "''main''",
          OF example_world_root(1) example_world_findGitRoot(1) example_world_root(3)
             example_repo_fields(3)]
  obtain info where i: "GetVersionInfo ?w ''.'' ''main'' = Inr info"
    and f: "GitBranch info = ''main''" "DefaultBranch info = ''main''"
      "GitDescribe info = ''v1.0.0''" "IsDirty info"
    using d dirty by (auto simp: branch_ref_def)
  from version_decision_table [OF i cal] f
  have "Version info = ''v1.0.0-20251125115904''"
    unfolding example_world_clock example_timestamp by auto
  with i cal f show ?thesis by auto
qed

lemma with_tags_fields:
  "filepath_Abs (with_tags w tags) = filepath_Abs w"
  "os_Stat (with_tags w tags) = os_Stat w"
  "time_Now (with_tags w tags) = time_Now w"
  "git_PlainOpen w root = Inr repo \<Longrightarrow>
     git_PlainOpen (with_tags w tags) root = Inr (repo\<lparr>repo_Tags := tags\<rparr>)"
  by (simp_all add: with_tags_def)

lemma tags_irrelevant:
  "detectDefaultBranch (repo\<lparr>repo_Tags := tags\<rparr>) = detectDefaultBranch repo"
  "hasUncommittedChanges (repo\<lparr>repo_Tags := tags\<rparr>) = hasUncommittedChanges repo"
  "repo_Head (repo\<lparr>repo_Tags := tags\<rparr>) = repo_Head repo"
  by (simp_all add: detectDefaultBranch_def hasUncommittedChanges_def split: sum.splits)

text \<open>
  Claim C3. Whenever the current branch differs from the default branch, the version
  is \<open>{branchSlug}-g{commitShort}\<close> (before the dirty suffix) regardless of tags, also when
  \<^verbatim>\<open>HEAD\<close> is exactly at a tag: the describe string is not used, and replacing the
  repository's tags by any others leaves the version unchanged.
\<close>

theorem off_default_branch_ignores_tags:
  assumes "GetVersionInfo w repoPath defaultBranch = Inr info"
    and "GitBranch info \<noteq> DefaultBranch info"
  shows "Version info =
           (GitBranchSlug info @ ''-g'' @ GitCommitShort info)
           @ (if IsDirty info then ''-'' @ Format_compact (time_Now w 1) else '''')
       \<and> GitBranchSlug info = createBranchSlug (GitBranch info)
       \<and> length (GitCommitShort info) = 7
       \<and> (\<exists>info'. GetVersionInfo (with_tags w tags) repoPath defaultBranch = Inr info'
              \<and> Version info' = Version info)"
proof -
  from GetVersionInfo_Inr_resolved [OF assms(1)] obtain absPath root repo head where
    r: "filepath_Abs w repoPath = Inr absPath" "findGitRoot (os_Stat w) absPath = Some root"
       "git_PlainOpen w root = Inr repo" "repo_Head repo = Inr head" by blast
  define branch where "branch = (if ref_IsBranch head then ref_Short head else ''HEAD'')"
  define dflt where
    "dflt = (if defaultBranch = '''' then detectDefaultBranch repo else defaultBranch)"
  from GetVersionInfo_resolved [OF r, of defaultBranch] assms(1)
  have f: "GitBranch info = branch" "DefaultBranch info = dflt"
    "GitBranchSlug info = createBranchSlug branch"
    "GitCommitShort info = take 7 (hash_String (ref_Hash head))"
    "IsDirty info = hasUncommittedChanges repo"
    by (auto simp: branch_def dflt_def)
  from assms(2) f have ne: "branch \<noteq> dflt" by simp
  have v: "Version info =
           (GitBranchSlug info @ ''-g'' @ GitCommitShort info)
           @ (if IsDirty info then ''-'' @ Format_compact (time_Now w 1) else '''')"
    using GetVersionInfo_Version [OF assms(1)] assms(2) by simp
  have s: "GitBranchSlug info = createBranchSlug (GitBranch info)"
    using f by simp
  have l: "length (GitCommitShort info) = 7"
    using f by (simp add: hash_String_length)
  let ?w' = "with_tags w tags" and ?repo' = "repo\<lparr>repo_Tags := tags\<rparr>"
  have r': "filepath_Abs ?w' repoPath = Inr absPath"
       "findGitRoot (os_Stat ?w') absPath = Some root"
       "git_PlainOpen ?w' root = Inr ?repo'" "repo_Head ?repo' = Inr head"
    using r by (simp_all add: with_tags_fields tags_irrelevant)
  from GetVersionInfo_resolved [OF r', of defaultBranch]
  obtain info' where i': "GetVersionInfo ?w' repoPath defaultBranch = Inr info'"
    and f': "GitBranch info' = branch" "DefaultBranch info' = dflt"
      "GitBranchSlug info' = createBranchSlug branch"
      "GitCommitShort info' = take 7 (hash_String (ref_Hash head))"
      "IsDirty info' = hasUncommittedChanges repo"
    by (auto simp: branch_def dflt_def tags_irrelevant)
  have "Version info' = Version info"
    using GetVersionInfo_Version [OF i'] ne f f' v by (simp add: with_tags_fields)
  with i' have "\<exists>info'. GetVersionInfo ?w' repoPath defaultBranch = Inr info'
      \<and> Version info' = Version info" by blast
  with v s l show ?thesis by blast
qed

theorem off_default_branch_ignores_tags_witness:
  "\<exists>info.
     GetVersionInfo
       (example_world
         (example_repo [tag_ref ''v1.0.0'' head_commit]
            (branch_ref ''feature/new-feature'' head_commit) example_log [clean_file]))
       ''.'' ''main'' = Inr info
     \<and> GitBranch info \<noteq> DefaultBranch info
     \<and> GitDescribe info = ''v1.0.0''
     \<and> Version info = ''feature-new-feature-ge7e38cf''"
proof -
  let ?r = "example_repo [tag_ref ''v1.0.0'' head_commit]
              (branch_ref ''feature/new-feature'' head_commit) example_log [clean_file]"
  let ?w = "example_world ?r"
  have d: "getGitDescribe ?r head_commit = (''v1.0.0'', ''v1.0.0'')"
    by (simp add: getGitDescribe_def example_repo_def buildTagMap_def tag_ref_def)
  have clean: "\<not> hasUncommittedChanges ?r"
    by (simp add: hasUncommittedChanges_def example_repo_def clean_file_def)
  have slug: "createBranchSlug ''feature/new-feature'' = ''feature-new-feature''"
    by code_simp
  from GetVersionInfo_resolved
         [where w = ?w and repo = ?r and head = "branch_ref ''feature/new-feature'' head_commit"
            and db = "''main''",
          OF example_world_root(1) example_world_findGitRoot(1) example_world_root(3)
             example_repo_fields(3)]
  obtain info where i: "GetVersionInfo ?w ''.'' ''main'' = Inr info"
    and f: "GitBranch info = ''feature/new-feature''" "DefaultBranch info = ''main''"
      "GitDescribe info = ''v1.0.0''" "\<not> IsDirty info"
      "GitBranchSlug info = ''feature-new-feature''" "GitCommitShort info = ''e7e38cf''"
    using d clean slug by (auto simp: branch_ref_def example_short_hashes)
  have ne: "GitBranch info \<noteq> DefaultBranch info" using f by simp
  from off_default_branch_ignores_tags [OF i ne] f
  have "Version info = ''feature-new-feature-ge7e38cf''" by simp
  with i ne f show ?thesis by auto
qed

subsection \<open>The describe engine\<close>

lemma getGitDescribe_exact:
  assumes "repo_Tags repo = Inr tagRefs" "iter_err tagRefs = None"
    and "buildTagMap (iter_refs tagRefs) h = Some tagName"
  shows "getGitDescribe repo h = (tagName, tagName)"
  using assms by (simp add: getGitDescribe_def)

lemma getGitDescribe_walk:
  assumes "repo_Tags repo = Inr tagRefs" "iter_err tagRefs = None"
    and "buildTagMap (iter_refs tagRefs) h = None"
    and "repo_Log repo h = Inr commitIter"
  shows "getGitDescribe repo h =
     (let (foundTag, distance) = walkLog (buildTagMap (iter_refs tagRefs)) commitIter 0 in
      if foundTag \<noteq> '''' then
        (foundTag @ ''-'' @ fmt_d distance @ ''-g'' @ take 7 (hash_String h), foundTag)
      else ('''', ''''))"
  using assms by (simp add: getGitDescribe_def Let_def split: prod.splits)

text \<open>
  Claim C5. When the commit is a key of the tag mapping, \<^const>\<open>getGitDescribe\<close> returns
  the bare tag name for both describe and latestTag, without consulting the log (whatever
  the log is), never in the form \<open>tag-0-ghash\<close>; so on the default branch with a clean
  tree and \<^verbatim>\<open>HEAD\<close> exactly at tag \<open>v1.0.0\<close> the version is exactly \<open>v1.0.0\<close>.
\<close>

theorem exact_tag_is_bare_tag_name:
  assumes "repo_Tags repo = Inr tagRefs" "iter_err tagRefs = None"
    and "buildTagMap (iter_refs tagRefs) (ref_Hash head) = Some tagName"
    and "filepath_Abs w repoPath = Inr absPath"
    and "findGitRoot (os_Stat w) absPath = Some root"
    and "git_PlainOpen w root = Inr repo"
    and "repo_Head repo = Inr head"
  shows "getGitDescribe repo (ref_Hash head) = (tagName, tagName)
     \<and> getGitDescribe (repo\<lparr>repo_Log := anyLog\<rparr>) (ref_Hash head) = (tagName, tagName)
     \<and> fst (getGitDescribe repo (ref_Hash head))
          \<noteq> tagName @ ''-'' @ fmt_d 0 @ ''-g'' @ take 7 (hash_String (ref_Hash head))
     \<and> (\<exists>info. GetVersionInfo w repoPath defaultBranch = Inr info
          \<and> GitDescribe info = tagName \<and> LatestTag info = tagName
          \<and> (GitBranch info = DefaultBranch info \<and> \<not> IsDirty info \<and> tagName \<noteq> ''''
               \<longrightarrow> Version info = tagName))"
proof -
  have d: "getGitDescribe repo (ref_Hash head) = (tagName, tagName)"
    by (rule getGitDescribe_exact [OF assms(1-3)])
  have d': "getGitDescribe (repo\<lparr>repo_Log := anyLog\<rparr>) (ref_Hash head) = (tagName, tagName)"
    by (rule getGitDescribe_exact [of _ tagRefs]) (simp_all add: assms(1-3))
  have n: "fst (getGitDescribe repo (ref_Hash head))
          \<noteq> tagName @ ''-'' @ fmt_d 0 @ ''-g'' @ take 7 (hash_String (ref_Hash head))"
    unfolding d by simp
  from GetVersionInfo_resolved [OF assms(4-7), of defaultBranch]
  obtain info where i: "GetVersionInfo w repoPath defaultBranch = Inr info"
    and f: "GitDescribe info = tagName" "LatestTag info = tagName"
    using d by auto
  have "GitBranch info = DefaultBranch info \<and> \<not> IsDirty info \<and> tagName \<noteq> ''''
               \<longrightarrow> Version info = tagName"
    using GetVersionInfo_Version [OF i] f by simp
  with i f have "\<exists>info. GetVersionInfo w repoPath defaultBranch = Inr info
          \<and> GitDescribe info = tagName \<and> LatestTag info = tagName
          \<and> (GitBranch info = DefaultBranch info \<and> \<not> IsDirty info \<and> tagName \<noteq> ''''
               \<longrightarrow> Version info = tagName)" by blast
  with d d' n show ?thesis by blast
qed

theorem exact_tag_is_bare_tag_name_witness:
  "getGitDescribe
     (example_repo [tag_ref ''v1.0.0'' tagged_commit] (branch_ref ''main'' tagged_commit)
        [tagged_commit] [clean_file, untracked_file])
     tagged_commit = (''v1.0.0'', ''v1.0.0'')
   \<and> (\<exists>info.
        GetVersionInfo
          (example_world
            (example_repo [tag_ref ''v1.0.0'' tagged_commit] (branch_ref ''main'' tagged_commit)
               [tagged_commit] [clean_file, untracked_file]))
          ''.'' '''' = Inr info
        \<and> GitBranch info = ''main'' \<and> DefaultBranch info = ''main'' \<and> \<not> IsDirty info
        \<and> Version info = ''v1.0.0'')"
proof -
  let ?head = "branch_ref ''main'' tagged_commit"
  let ?r = "example_repo [tag_ref ''v1.0.0'' tagged_commit] ?head
              [tagged_commit] [clean_file, untracked_file]"
  let ?w = "example_world ?r"
  have h: "ref_Hash ?head = tagged_commit" by (simp add: branch_ref_def)
  have key: "buildTagMap (iter_refs \<lparr>iter_refs = [tag_ref ''v1.0.0'' tagged_commit], iter_err = None\<rparr>)
               (ref_Hash ?head) = Some ''v1.0.0''"
    by (simp add: buildTagMap_def tag_ref_def branch_ref_def)
  have clean: "\<not> hasUncommittedChanges ?r"
    by (simp add: hasUncommittedChanges_def example_repo_def clean_file_def untracked_file_def)
  have dflt: "detectDefaultBranch ?r = ''main''"
    by (simp add: detectDefaultBranch_def example_repo_def existingBranches_def branch_ref_def)
  note t = exact_tag_is_bare_tag_name
         [where repo = ?r and head = ?head and w = ?w and defaultBranch = "''''"
            and anyLog = "repo_Log ?r",
          OF example_repo_fields(1) _ key example_world_root(1) example_world_findGitRoot(1)
             example_world_root(3) example_repo_fields(3), simplified h]
  have e: "iter_err \<lparr>iter_refs = [tag_ref ''v1.0.0'' tagged_commit], iter_err = None\<rparr> = None"
    by simp
  from t [OF e] have d: "getGitDescribe ?r tagged_commit = (''v1.0.0'', ''v1.0.0'')"
    by blast
  from t [OF e] obtain info where i: "GetVersionInfo ?w ''.'' '''' = Inr info"
    and f: "GitDescribe info = ''v1.0.0''"
    and v: "GitBranch info = DefaultBranch info \<and> \<not> IsDirty info \<and> ''v1.0.0'' \<noteq> ''''
               \<longrightarrow> Version info = ''v1.0.0''"
    by blast
  from GetVersionInfo_resolved
         [where w = ?w and repo = ?r and head = ?head and db = "''''",
          OF example_world_root(1) example_world_findGitRoot(1) example_world_root(3)
             example_repo_fields(3)] i
  have g: "GitBranch info = ''main''" "DefaultBranch info = ''main''" "\<not> IsDirty info"
    using clean dflt by (auto simp: branch_ref_def)
  with v have "Version info = ''v1.0.0''" by simp
  with d i g show ?thesis by blast
qed

lemma getGitDescribe_found:
  assumes "repo_Tags repo = Inr tagRefs" "iter_err tagRefs = None"
    and "buildTagMap (iter_refs tagRefs) h = None"
    and "repo_Log repo h = Inr (pre @ tagged # older)"
    and "\<forall>c \<in> set pre. buildTagMap (iter_refs tagRefs) c = None"
    and "buildTagMap (iter_refs tagRefs) tagged = Some tag" "tag \<noteq> ''''"
  shows "getGitDescribe repo h =
     (tag @ ''-'' @ fmt_d (int (length pre)) @ ''-g'' @ take 7 (hash_String h), tag)"
  unfolding getGitDescribe_walk [OF assms(1-4)] walkLog_found [OF assms(5,6)]
  using assms(7) by simp

lemma getGitDescribe_not_found:
  assumes "repo_Tags repo = Inr tagRefs" "iter_err tagRefs = None"
    and "buildTagMap (iter_refs tagRefs) h = None"
    and "repo_Log repo h = Inr commitIter"
    and "\<forall>c \<in> set commitIter. buildTagMap (iter_refs tagRefs) c = None"
  shows "getGitDescribe repo h = ('''', '''')"
  unfolding getGitDescribe_walk [OF assms(1-4)] walkLog_none [OF assms(5)]
  by simp

lemma fmt_d_small: "fmt_d 0 = ''0''" "fmt_d 1 = ''1''" "fmt_d 5 = ''5''"
  by code_simp+

lemma example_commits_distinct:
  "head_commit \<noteq> tagged_commit" "tagged_commit \<noteq> head_commit"
  by (simp_all add: head_commit_def tagged_commit_def)

text \<open>
  Claim C2 as stated fails: with \<^verbatim>\<open>HEAD\<close> one commit past the tag no commit lies strictly
  between the tag and \<^verbatim>\<open>HEAD\<close>, yet the distance rendered is 1, not 0.
\<close>

theorem distance_strictly_between_counterexample:
  "getGitDescribe
     (example_repo [tag_ref ''v1.0.0'' tagged_commit] (branch_ref ''main'' head_commit)
        [head_commit, tagged_commit] [clean_file])
     head_commit = (''v1.0.0-1-ge7e38cf'', ''v1.0.0'')
   \<and> commits_strictly_between (buildTagMap [tag_ref ''v1.0.0'' tagged_commit])
        [head_commit, tagged_commit] = 0
   \<and> fst (getGitDescribe
        (example_repo [tag_ref ''v1.0.0'' tagged_commit] (branch_ref ''main'' head_commit)
           [head_commit, tagged_commit] [clean_file])
        head_commit)
       \<noteq> ''v1.0.0'' @ ''-''
            @ fmt_d (int (commits_strictly_between (buildTagMap [tag_ref ''v1.0.0'' tagged_commit])
                         [head_commit, tagged_commit]))
            @ ''-g'' @ take 7 (hash_String head_commit)"
proof -
  let ?r = "example_repo [tag_ref ''v1.0.0'' tagged_commit] (branch_ref ''main'' head_commit)
              [head_commit, tagged_commit] [clean_file]"
  have tm: "buildTagMap [tag_ref ''v1.0.0'' tagged_commit] head_commit = None"
    "buildTagMap [tag_ref ''v1.0.0'' tagged_commit] tagged_commit = Some ''v1.0.0''"
    by (simp_all add: buildTagMap_def tag_ref_def example_commits_distinct)
  have d: "getGitDescribe ?r head_commit = (''v1.0.0-1-ge7e38cf'', ''v1.0.0'')"
    by (simp add: getGitDescribe_def example_repo_def branch_ref_def tm fmt_d_small
          example_short_hashes)
  have b: "commits_strictly_between (buildTagMap [tag_ref ''v1.0.0'' tagged_commit])
        [head_commit, tagged_commit] = 0"
    by (simp add: commits_strictly_between_def tm)
  show ?thesis unfolding d b by (simp add: fmt_d_small example_short_hashes)
qed

text \<open>
  Claim C2, amended. For a commit that is not a key of the tag mapping and whose log
  reaches a commit that is, \<^const>\<open>getGitDescribe\<close> returns \<open>{tag}-{d}-g{commitShort}\<close> and
  the tag, where \<open>d\<close> is the number of commits the traversal visits before the tagged one,
  \<^verbatim>\<open>HEAD\<close> included: one more than the number of commits strictly between the tag and
  \<^verbatim>\<open>HEAD\<close>. The short hash is 7 lower-case hexadecimal digits. With \<^verbatim>\<open>HEAD\<close> five commits
  past \<open>v1.0.0\<close> the describe string is \<open>v1.0.0-5-g\<close> followed by the short hash.
\<close>

theorem describe_distance_counts_head:
  assumes "repo_Tags repo = Inr tagRefs" "iter_err tagRefs = None"
    and "tagMap = buildTagMap (iter_refs tagRefs)"
    and "tagMap h = None"
    and "repo_Log repo h = Inr (h # between @ tagged # older)"
    and "\<forall>c \<in> set between. tagMap c = None"
    and "tagMap tagged = Some tag" "tag \<noteq> ''''"
  shows "getGitDescribe repo h =
           (tag @ ''-'' @ fmt_d (int (commits_strictly_between tagMap (h # between @ tagged # older)) + 1)
              @ ''-g'' @ take 7 (hash_String h), tag)
       \<and> commits_strictly_between tagMap (h # between @ tagged # older) = length between
       \<and> length (take 7 (hash_String h)) = 7
       \<and> set (take 7 (hash_String h)) \<subseteq> set ''0123456789abcdef''"
proof -
  have pre: "\<forall>c \<in> set (h # between). buildTagMap (iter_refs tagRefs) c = None"
    using assms(3,4,6) by simp
  have "getGitDescribe repo h =
      (tag @ ''-'' @ fmt_d (int (length (h # between))) @ ''-g'' @ take 7 (hash_String h), tag)"
    by (rule getGitDescribe_found [where pre = "h # between" and older = older and tagged = tagged])
       (use assms pre in simp_all)
  moreover have "commits_strictly_between tagMap (h # between @ tagged # older) = length between"
    using assms(6,7) by (simp add: commits_strictly_between_def takeWhile_append2 [of between])
  ultimately show ?thesis using shortHash_shape [of h] by (simp add: add.commute)
qed

theorem describe_distance_counts_head_witness:
  "getGitDescribe
     (example_repo [tag_ref ''v1.0.0'' tagged_commit] (branch_ref ''main'' head_commit)
        example_log [clean_file])
     head_commit = (''v1.0.0-5-ge7e38cf'', ''v1.0.0'')
   \<and> (\<exists>info.
        GetVersionInfo
          (example_world
            (example_repo [tag_ref ''v1.0.0'' tagged_commit] (branch_ref ''main'' head_commit)
               example_log [clean_file]))
          ''.'' ''main'' = Inr info
        \<and> Version info = ''v1.0.0-5-ge7e38cf'')"
proof -
  let ?head = "branch_ref ''main'' head_commit"
  let ?r = "example_repo [tag_ref ''v1.0.0'' tagged_commit] ?head example_log [clean_file]"
  let ?w = "example_world ?r"
  let ?tm = "buildTagMap [tag_ref ''v1.0.0'' tagged_commit]"
  let ?between = "[0x4b825dc642cb6eb9a060e54bf8d69288fbee4904,
      0x3c1f0a9d5e7b2468ace013579bdf02468ace1357,
      0x2fd4e1c67a2d28fced849ee1bb76e7391b93eb12,
      0x1a2b3c4d5e6f708192a3b4c5d6e7f8091a2b3c4d] :: hash list"
  have tm: "?tm head_commit = None" "?tm tagged_commit = Some ''v1.0.0''"
    "\<forall>c \<in> set ?between. ?tm c = None"
    by (simp_all add: buildTagMap_def tag_ref_def head_commit_def tagged_commit_def)
  have log: "repo_Log ?r head_commit = Inr (head_commit # ?between @ tagged_commit # [])"
    by (simp add: example_repo_def branch_ref_def example_log_def)
  have tags: "repo_Tags ?r = Inr \<lparr>iter_refs = [tag_ref ''v1.0.0'' tagged_commit], iter_err = None\<rparr>"
    by (rule example_repo_fields(1))
  from describe_distance_counts_head
         [where tagMap = ?tm and tag = "''v1.0.0''", OF tags _ _ tm(1) log tm(3) tm(2)]
  have d: "getGitDescribe ?r head_commit = (''v1.0.0-5-ge7e38cf'', ''v1.0.0'')"
    by (simp add: fmt_d_small example_short_hashes)
  have clean: "\<not> hasUncommittedChanges ?r"
    by (simp add: hasUncommittedChanges_def example_repo_def clean_file_def)
  from GetVersionInfo_resolved
         [where w = ?w and repo = ?r and head = ?head and db = "''main''",
          OF example_world_root(1) example_world_findGitRoot(1) example_world_root(3)
             example_repo_fields(3)]
  obtain info where i: "GetVersionInfo ?w ''.'' ''main'' = Inr info"
    and "Version info = ''v1.0.0-5-ge7e38cf''"
    using d clean by (auto simp: branch_ref_def)
  with d show ?thesis by blast
qed

lemma buildTagMap_name:
  assumes "buildTagMap refs c = Some t"
  shows "t \<in> ref_Short ` set refs"
proof -
  from assms have "(c, t) \<in> set (rev (map (\<lambda>ref. (ref_Hash ref, ref_Short ref)) refs))"
    unfolding buildTagMap_map_of by (rule map_of_SomeD)
  then show ?thesis by auto
qed

lemma example_describe_five_past:
  "getGitDescribe
     (example_repo [tag_ref ''v1.0.0'' tagged_commit] (branch_ref ''main'' head_commit)
        example_log status)
     head_commit = (''v1.0.0-5-ge7e38cf'', ''v1.0.0'')"
proof -
  let ?r = "example_repo [tag_ref ''v1.0.0'' tagged_commit] (branch_ref ''main'' head_commit)
              example_log status"
  let ?tm = "buildTagMap [tag_ref ''v1.0.0'' tagged_commit]"
  let ?pre = "[head_commit, 0x4b825dc642cb6eb9a060e54bf8d69288fbee4904,
      0x3c1f0a9d5e7b2468ace013579bdf02468ace1357,
      0x2fd4e1c67a2d28fced849ee1bb76e7391b93eb12,
      0x1a2b3c4d5e6f708192a3b4c5d6e7f8091a2b3c4d] :: hash list"
  have tm: "?tm head_commit = None" "?tm tagged_commit = Some ''v1.0.0''"
    "\<forall>c \<in> set ?pre. ?tm c = None"
    by (simp_all add: buildTagMap_def tag_ref_def head_commit_def tagged_commit_def)
  have log: "repo_Log ?r head_commit = Inr (?pre @ tagged_commit # [])"
    by (simp add: example_repo_def branch_ref_def example_log_def)
  have "getGitDescribe ?r head_commit =
     (''v1.0.0'' @ ''-'' @ fmt_d (int (length ?pre)) @ ''-g'' @ take 7 (hash_String head_commit),
      ''v1.0.0'')"
    by (rule getGitDescribe_found [OF example_repo_fields(1) _ _ log])
       (use tm in simp_all)
  then show ?thesis by (simp add: fmt_d_small example_short_hashes)
qed

text \<open>
  Claim C10. The pair \<^const>\<open>getGitDescribe\<close> returns has exactly one of three shapes:
  both strings empty; both the same (non-empty) tag name; or describe equal to
  \<open>{tag}-{d}-g{short}\<close> with latestTag the (non-empty) tag. A non-empty latestTag is the
  name of one of the repository's tag references. Hence latestTag is non-empty exactly
  when describe is, and latestTag is a prefix of describe.
\<close>

theorem describe_result_shapes:
  assumes "getGitDescribe repo h = (describe, latestTag)"
  shows "((describe = '''' \<and> latestTag = '''')
        \<or> (describe = latestTag \<and> latestTag \<noteq> '''')
        \<or> (latestTag \<noteq> '''' \<and>
            (\<exists>d. 0 \<le> d \<and> describe = latestTag @ ''-'' @ fmt_d d @ ''-g'' @ take 7 (hash_String h))))
     \<and> \<not> ((describe = '''' \<and> latestTag = '''') \<and> (describe = latestTag \<and> latestTag \<noteq> ''''))
     \<and> \<not> ((describe = '''' \<and> latestTag = '''') \<and>
            (latestTag \<noteq> '''' \<and>
              (\<exists>d. 0 \<le> d \<and> describe = latestTag @ ''-'' @ fmt_d d @ ''-g'' @ take 7 (hash_String h))))
     \<and> \<not> ((describe = latestTag \<and> latestTag \<noteq> '''') \<and>
            (latestTag \<noteq> '''' \<and>
              (\<exists>d. 0 \<le> d \<and> describe = latestTag @ ''-'' @ fmt_d d @ ''-g'' @ take 7 (hash_String h))))
     \<and> (latestTag \<noteq> '''' \<longleftrightarrow> describe \<noteq> '''')
     \<and> (\<exists>rest. describe = latestTag @ rest)
     \<and> (latestTag \<noteq> '''' \<longrightarrow>
          (\<exists>tagRefs. repo_Tags repo = Inr tagRefs \<and> latestTag \<in> ref_Short ` set (iter_refs tagRefs)))"
proof -
  let ?named = "\<exists>tagRefs. repo_Tags repo = Inr tagRefs \<and> latestTag \<in> ref_Short ` set (iter_refs tagRefs)"
  have shape: "(describe = '''' \<and> latestTag = '''')
        \<or> (describe = latestTag \<and> latestTag \<noteq> '''' \<and> ?named)
        \<or> (latestTag \<noteq> '''' \<and> ?named \<and>
            (\<exists>d. 0 \<le> d \<and> describe = latestTag @ ''-'' @ fmt_d d @ ''-g'' @ take 7 (hash_String h)))"
  proof (cases "repo_Tags repo")
    case (Inl e)
    with assms show ?thesis by (simp add: getGitDescribe_def)
  next
    case tags: (Inr tagRefs)
    let ?tm = "buildTagMap (iter_refs tagRefs)"
    show ?thesis
    proof (cases "iter_err tagRefs")
      case (Some e)
      with assms tags show ?thesis by (simp add: getGitDescribe_def)
    next
      case noerr: None
      show ?thesis
      proof (cases "?tm h")
        case (Some t)
        from getGitDescribe_exact [OF tags noerr Some] assms
        have "describe = t" "latestTag = t" by simp_all
        moreover from buildTagMap_name [OF Some] tags
        have "\<exists>tagRefs. repo_Tags repo = Inr tagRefs \<and> t \<in> ref_Short ` set (iter_refs tagRefs)"
          by blast
        ultimately show ?thesis by (cases "t = ''''") auto
      next
        case nokey: None
        show ?thesis
        proof (cases "repo_Log repo h")
          case (Inl e)
          with assms tags noerr nokey show ?thesis by (simp add: getGitDescribe_def)
        next
          case log: (Inr cs)
          note walk = getGitDescribe_walk [OF tags noerr nokey log]
          from walkLog_cases [of cs ?tm 0] show ?thesis
          proof
            assume "\<exists>pre c rest t. cs = pre @ c # rest \<and> (\<forall>x \<in> set pre. ?tm x = None)
               \<and> ?tm c = Some t \<and> walkLog ?tm cs 0 = (t, 0 + int (length pre))"
            then obtain pre c rest t where cs: "cs = pre @ c # rest"
              and c: "?tm c = Some t"
              and w: "walkLog ?tm cs 0 = (t, 0 + int (length pre))"
              by (elim exE conjE)
            from buildTagMap_name [OF c] tags
            have n: "\<exists>tagRefs. repo_Tags repo = Inr tagRefs \<and> t \<in> ref_Short ` set (iter_refs tagRefs)"
              by blast
            show ?thesis
            proof (cases "t = ''''")
              case True
              with walk w assms show ?thesis by simp
            next
              case False
              with walk w assms have "latestTag = t"
                "describe = t @ ''-'' @ fmt_d (int (length pre)) @ ''-g'' @ take 7 (hash_String h)"
                by simp_all
              moreover have "0 \<le> int (length pre)" by simp
              ultimately show ?thesis using False n by blast
            qed
          next
            assume "(\<forall>x \<in> set cs. ?tm x = None) \<and> walkLog ?tm cs 0 = ('''', 0 + int (length cs))"
            with walk assms show ?thesis by simp
          qed
        qed
      qed
    qed
  qed
  then show ?thesis by auto
qed

theorem describe_result_shapes_witness:
  "getGitDescribe
     (example_repo [tag_ref ''v1.0.0'' tagged_commit] (branch_ref ''main'' head_commit)
        example_log [clean_file])
     head_commit = (''v1.0.0-5-ge7e38cf'', ''v1.0.0'')
   \<and> (\<exists>rest. ''v1.0.0-5-ge7e38cf'' = ''v1.0.0'' @ rest)
   \<and> (\<exists>d. 0 \<le> d \<and> ''v1.0.0-5-ge7e38cf'' = ''v1.0.0'' @ ''-'' @ fmt_d d @ ''-g'' @ take 7 (hash_String head_commit))"
proof -
  note e = example_describe_five_past [of "[clean_file]"]
  from describe_result_shapes [OF e] have
    "(\<exists>rest. ''v1.0.0-5-ge7e38cf'' = ''v1.0.0'' @ rest)"
    "(\<exists>d. 0 \<le> d \<and> ''v1.0.0-5-ge7e38cf'' = ''v1.0.0'' @ ''-'' @ fmt_d d @ ''-g'' @ take 7 (hash_String head_commit))"
    by simp_all
  with e show ?thesis by blast
qed





subsection \<open>The dirty-state detector\<close>

lemma status_loop_iff:
  "status_loop status \<longleftrightarrow>
     (\<exists>fileStatus \<in> set status.
        (Staging fileStatus \<noteq> Untracked \<and> Staging fileStatus \<noteq> Unmodified)
        \<or> (Worktree fileStatus \<noteq> Untracked \<and> Worktree fileStatus \<noteq> Unmodified))"
  by (induction status) auto

text \<open>
  Claim C8. When the working-tree status cannot be computed (\<^verbatim>\<open>repo.Worktree()\<close> fails, as
  for a bare repository, or \<^verbatim>\<open>worktree.Status()\<close> fails), \<^const>\<open>hasUncommittedChanges\<close>
  returns false, and the resolution does not fail for it: once the repository and
  \<^verbatim>\<open>HEAD\<close> are resolved, \<^const>\<open>GetVersionInfo\<close> returns a version, marked clean and without
  timestamp suffix.
\<close>

theorem status_failure_is_clean:
  assumes "repo_Worktree repo = Inl err
           \<or> (\<exists>worktree. repo_Worktree repo = Inr worktree \<and> wt_Status worktree = Inl err)"
    and "filepath_Abs w repoPath = Inr absPath"
    and "findGitRoot (os_Stat w) absPath = Some root"
    and "git_PlainOpen w root = Inr repo"
    and "repo_Head repo = Inr head"
  shows "hasUncommittedChanges repo = False
     \<and> (\<exists>info. GetVersionInfo w repoPath defaultBranch = Inr info
           \<and> IsDirty info = False
           \<and> Version info =
               (if GitBranch info = DefaultBranch info \<and> GitDescribe info \<noteq> ''''
                then GitDescribe info
                else GitBranchSlug info @ ''-g'' @ GitCommitShort info))"
proof -
  have clean: "hasUncommittedChanges repo = False"
    using assms(1) by (auto simp: hasUncommittedChanges_def)
  from GetVersionInfo_resolved [OF assms(2-5), of defaultBranch]
  obtain info where i: "GetVersionInfo w repoPath defaultBranch = Inr info"
    and d: "IsDirty info = hasUncommittedChanges repo" by blast
  from GetVersionInfo_Version [OF i] d clean
  have "Version info =
               (if GitBranch info = DefaultBranch info \<and> GitDescribe info \<noteq> ''''
                then GitDescribe info
                else GitBranchSlug info @ ''-g'' @ GitCommitShort info)" by simp
  with i d clean show ?thesis by auto
qed

theorem status_failure_is_clean_witness:
  "hasUncommittedChanges
     ((example_repo [] (branch_ref ''main'' head_commit) [head_commit] [modified_file])
        \<lparr>repo_Worktree := Inr \<lparr>wt_Status = Inl (LibError ''index file corrupt'')\<rparr>\<rparr>) = False
   \<and> (\<exists>info.
        GetVersionInfo
          (example_world
            ((example_repo [] (branch_ref ''main'' head_commit) [head_commit] [modified_file])
               \<lparr>repo_Worktree := Inr \<lparr>wt_Status = Inl (LibError ''index file corrupt'')\<rparr>\<rparr>))
          ''.'' ''main'' = Inr info
        \<and> IsDirty info = False \<and> Version info = ''main-ge7e38cf'')"
proof -
  let ?head = "branch_ref ''main'' head_commit"
  let ?r = "(example_repo [] ?head [head_commit] [modified_file])
              \<lparr>repo_Worktree := Inr \<lparr>wt_Status = Inl (LibError ''index file corrupt'')\<rparr>\<rparr>"
  let ?w = "example_world ?r"
  have fail: "repo_Worktree ?r = Inl (LibError ''index file corrupt'')
      \<or> (\<exists>worktree. repo_Worktree ?r = Inr worktree
            \<and> wt_Status worktree = Inl (LibError ''index file corrupt''))"
    by (simp add: example_repo_def)
  have hd: "repo_Head ?r = Inr ?head" by (simp add: example_repo_def)
  note t = status_failure_is_clean
      [where w = ?w and defaultBranch = "''main''",
       OF fail example_world_root(1) example_world_findGitRoot(1) example_world_root(3) hd]
  from t have c: "hasUncommittedChanges ?r = False" by blast
  from t obtain info where i: "GetVersionInfo ?w ''.'' ''main'' = Inr info"
    and f: "IsDirty info = False"
    and v: "Version info =
               (if GitBranch info = DefaultBranch info \<and> GitDescribe info \<noteq> ''''
                then GitDescribe info
                else GitBranchSlug info @ ''-g'' @ GitCommitShort info)" by blast
  have d: "getGitDescribe ?r head_commit = ('''', '''')"
    by (simp add: getGitDescribe_def example_repo_def buildTagMap_def branch_ref_def)
  have slug: "createBranchSlug ''main'' = ''main''" by code_simp
  from GetVersionInfo_resolved
         [where w = ?w and repo = ?r and head = ?head and db = "''main''",
          OF example_world_root(1) example_world_findGitRoot(1) example_world_root(3) hd] i
  have g: "GitDescribe info = ''''" "GitBranchSlug info = ''main''"
    "GitCommitShort info = ''e7e38cf''"
    using d slug by (auto simp: branch_ref_def example_short_hashes)
  with v have "Version info = ''main-ge7e38cf''" by simp
  with c i f show ?thesis by blast
qed

subsection \<open>The repository locator\<close>

lemma LastIndex_absent: "c \<notin> set s \<Longrightarrow> LastIndex s c = - 1"
  by (induction s) (auto simp: Let_def)

lemma LastIndex_last_occurrence:
  "c \<notin> set ys \<Longrightarrow> LastIndex (xs @ c # ys) c = int (length xs)"
  by (induction xs) (auto simp: Let_def LastIndex_absent)

lemma TrimRight_unchanged:
  assumes "s \<noteq> []" "last s \<noteq> c"
  shows "TrimRight s c = s"
proof -
  from assms(1) obtain ys y where s: "s = ys @ [y]" by (cases s rule: rev_cases) auto
  with assms(2) have "y \<noteq> c" by simp
  with s show ?thesis by (simp add: TrimRight_def)
qed

lemma parentDir_child:
  assumes "root \<noteq> ''''" "n \<noteq> ''''" "CHR ''/'' \<notin> set n"
  shows "parentDir (join_path root (names @ [n])) = join_path root names"
proof -
  define prefix where
    "prefix = (if root = ''/'' then '''' else root) @ concat (map (\<lambda>n. CHR ''/'' # n) names)"
  have child: "join_path root (names @ [n]) = prefix @ CHR ''/'' # n"
    by (simp add: join_path_def prefix_def)
  have ne: "prefix @ CHR ''/'' # n \<noteq> ''/''" using assms(2) by (cases prefix) auto
  have "last (prefix @ CHR ''/'' # n) = last n" using assms(2) by simp
  moreover have "last n \<in> set n" using assms(2) by simp
  ultimately have "last (prefix @ CHR ''/'' # n) \<noteq> CHR ''/''" using assms(3) by metis
  then have trim: "TrimRight (prefix @ CHR ''/'' # n) (CHR ''/'') = prefix @ CHR ''/'' # n"
    by (intro TrimRight_unchanged) simp_all
  have idx: "LastIndex (prefix @ CHR ''/'' # n) (CHR ''/'') = int (length prefix)"
    by (rule LastIndex_last_occurrence [OF assms(3)])
  have p: "parentDir (prefix @ CHR ''/'' # n) = (if prefix = [] then ''/'' else prefix)"
    using ne by (simp add: parentDir_def trim idx Let_def)
  have "(if prefix = [] then ''/'' else prefix) = join_path root names"
    using assms(1) by (auto simp: prefix_def join_path_def)
  with p child show ?thesis by simp
qed

lemma join_path_child_differs:
  assumes "n \<noteq> ''''"
  shows "join_path root (names @ [n]) \<noteq> join_path root names"
proof
  assume eq: "join_path root (names @ [n]) = join_path root names"
  show False
  proof (cases "names = []")
    case True
    with eq assms show False by (auto simp: join_path_def split: if_splits)
  next
    case False
    with eq assms show False by (simp add: join_path_def)
  qed
qed

lemma findGitRoot_descend:
  assumes "root \<noteq> ''''"
    and "\<forall>n \<in> set names. n \<noteq> '''' \<and> CHR ''/'' \<notin> set n"
    and "is_git_entry (stat (root @ ''/.git''))"
    and "\<forall>k. 0 < k \<and> k \<le> length names \<longrightarrow>
           \<not> is_git_entry (stat (join_path root (take k names) @ ''/.git''))"
  shows "findGitRoot stat (join_path root names) = Some root"
  using assms(2,4)
proof (induction names rule: rev_induct)
  case Nil
  show ?case using assms(3) by (subst findGitRoot.simps) (simp add: join_path_def)
next
  case (snoc n names)
  from snoc.prems(1) have n: "n \<noteq> ''''" "CHR ''/'' \<notin> set n" by simp_all
  have here: "\<not> is_git_entry (stat (join_path root (names @ [n]) @ ''/.git''))"
    using snoc.prems(2) [rule_format, of "length (names @ [n])"] by simp
  have up: "\<forall>k. 0 < k \<and> k \<le> length names \<longrightarrow>
           \<not> is_git_entry (stat (join_path root (take k names) @ ''/.git''))"
  proof (intro allI impI)
    fix k assume k: "0 < k \<and> k \<le> length names"
    then have "0 < k \<and> k \<le> length (names @ [n])" by simp
    from snoc.prems(2) [rule_format, OF this] k
    show "\<not> is_git_entry (stat (join_path root (take k names) @ ''/.git''))" by simp
  qed
  have ih: "findGitRoot stat (join_path root names) = Some root"
    using snoc.IH snoc.prems(1) up by simp
  have parent: "parentDir (join_path root (names @ [n])) = join_path root names"
    by (rule parentDir_child [OF assms(1) n])
  show ?case
    using here ih join_path_child_differs [OF n(1), of root names]
    by (subst findGitRoot.simps) (simp add: parent Let_def)
qed

lemma findGitRoot_nearest:
  assumes "findGitRoot stat p = Some r"
  shows "\<exists>n. r = (parentDir ^^ n) p \<and> is_git_entry (stat (r @ ''/.git''))
           \<and> (\<forall>m < n. \<not> is_git_entry (stat ((parentDir ^^ m) p @ ''/.git'')))"
  using assms
proof (induction stat p rule: findGitRoot.induct)
  case (1 stat absPath)
  show ?case
  proof (cases "is_git_entry (stat (absPath @ ''/.git''))")
    case True
    with "1.prems" have "r = absPath" by (subst (asm) findGitRoot.simps) simp
    with True have "r = (parentDir ^^ 0) absPath \<and> is_git_entry (stat (r @ ''/.git''))
           \<and> (\<forall>m < 0. \<not> is_git_entry (stat ((parentDir ^^ m) absPath @ ''/.git'')))" by simp
    then show ?thesis by blast
  next
    case False
    with "1.prems" have ne: "parentDir absPath \<noteq> absPath"
      and rec: "findGitRoot stat (parentDir absPath) = Some r"
      by (subst (asm) findGitRoot.simps, simp add: Let_def split: if_splits)+
    from "1.IH" [OF False refl ne rec] obtain n where
      n: "r = (parentDir ^^ n) (parentDir absPath)" "is_git_entry (stat (r @ ''/.git''))"
         "\<forall>m < n. \<not> is_git_entry (stat ((parentDir ^^ m) (parentDir absPath) @ ''/.git''))"
      by blast
    have "r = (parentDir ^^ Suc n) absPath" using n(1) by (simp add: funpow_swap1)
    moreover have "\<forall>m < Suc n. \<not> is_git_entry (stat ((parentDir ^^ m) absPath @ ''/.git''))"
    proof (intro allI impI)
      fix m assume "m < Suc n"
      show "\<not> is_git_entry (stat ((parentDir ^^ m) absPath @ ''/.git''))"
      proof (cases m)
        case 0
        with False show ?thesis by simp
      next
        case (Suc m')
        with \<open>m < Suc n\<close> n(3) show ?thesis by (simp add: funpow_swap1)
      qed
    qed
    ultimately show ?thesis using n(2) by blast
  qed
qed

text \<open>
  Claim C9. Starting the resolution in a directory below the repository root, reached
  from it through \<open>names\<close>, gives the same result as starting at the root: the walk
  returns the nearest directory on the way up, the start included, that holds \<^verbatim>\<open>.git\<close>,
  and everything after it depends on that root only. The directories strictly below the
  root on the way down hold no \<^verbatim>\<open>.git\<close> of their own (they belong to this repository,
  not to a nested one).
\<close>

theorem subdirectory_resolves_like_root:
  assumes "filepath_Abs w rootPath = Inr root"
    and "filepath_Abs w subPath = Inr (join_path root names)"
    and "root \<noteq> ''''"
    and "\<forall>n \<in> set names. n \<noteq> '''' \<and> CHR ''/'' \<notin> set n"
    and "is_git_entry (os_Stat w (root @ ''/.git''))"
    and "\<forall>k. 0 < k \<and> k \<le> length names \<longrightarrow>
           \<not> is_git_entry (os_Stat w (join_path root (take k names) @ ''/.git''))"
  shows "findGitRoot (os_Stat w) (join_path root names) = Some root
     \<and> findGitRoot (os_Stat w) root = Some root
     \<and> GetVersionInfo w subPath defaultBranch = GetVersionInfo w rootPath defaultBranch
     \<and> (\<forall>start found. findGitRoot (os_Stat w) start = Some found \<longrightarrow>
           (\<exists>n. found = (parentDir ^^ n) start
              \<and> is_git_entry (os_Stat w (found @ ''/.git''))
              \<and> (\<forall>m < n. \<not> is_git_entry (os_Stat w ((parentDir ^^ m) start @ ''/.git'')))))"
proof -
  have sub: "findGitRoot (os_Stat w) (join_path root names) = Some root"
    by (rule findGitRoot_descend [OF assms(3-6)])
  have top: "findGitRoot (os_Stat w) root = Some root"
    using assms(5) by (subst findGitRoot.simps) simp
  have same: "GetVersionInfo w subPath defaultBranch = GetVersionInfo w rootPath defaultBranch"
    by (simp add: GetVersionInfo_def assms(1,2) sub top)
  have near: "\<forall>start found. findGitRoot (os_Stat w) start = Some found \<longrightarrow>
           (\<exists>n. found = (parentDir ^^ n) start
              \<and> is_git_entry (os_Stat w (found @ ''/.git''))
              \<and> (\<forall>m < n. \<not> is_git_entry (os_Stat w ((parentDir ^^ m) start @ ''/.git''))))"
    using findGitRoot_nearest by blast
  from sub top same near show ?thesis by (intro conjI)
qed

theorem subdirectory_resolves_like_root_witness:
  "GetVersionInfo
     (example_world
       (example_repo [tag_ref ''v1.0.0'' tagged_commit] (branch_ref ''main'' head_commit)
          example_log [clean_file]))
     ''.'' ''main''
   = GetVersionInfo
     (example_world
       (example_repo [tag_ref ''v1.0.0'' tagged_commit] (branch_ref ''main'' head_commit)
          example_log [clean_file]))
     ''/work/repo'' ''main''
   \<and> findGitRoot
       (os_Stat (example_world
         (example_repo [tag_ref ''v1.0.0'' tagged_commit] (branch_ref ''main'' head_commit)
            example_log [clean_file])))
       ''/work/repo/pkg/version'' = Some ''/work/repo''
   \<and> (\<exists>info. GetVersionInfo
       (example_world
         (example_repo [tag_ref ''v1.0.0'' tagged_commit] (branch_ref ''main'' head_commit)
            example_log [clean_file]))
       ''/work/repo'' ''main'' = Inr info \<and> Version info = ''v1.0.0-5-ge7e38cf'')"
proof -
  let ?head = "branch_ref ''main'' head_commit"
  let ?r = "example_repo [tag_ref ''v1.0.0'' tagged_commit] ?head example_log [clean_file]"
  let ?w = "example_world ?r"
  let ?names = "[''pkg'', ''version'']"
  have j: "join_path ''/work/repo'' ?names = ''/work/repo/pkg/version''"
    by (simp add: join_path_def)
  have abs: "filepath_Abs ?w ''.'' = Inr (join_path ''/work/repo'' ?names)"
    unfolding j by (rule example_world_root(1))
  have names: "\<forall>n \<in> set ?names. n \<noteq> '''' \<and> CHR ''/'' \<notin> set n" by simp
  have marker: "is_git_entry (os_Stat ?w (''/work/repo'' @ ''/.git''))"
    by (simp add: example_world_def is_git_entry_def)
  have below: "\<forall>k. 0 < k \<and> k \<le> length ?names \<longrightarrow>
           \<not> is_git_entry (os_Stat ?w (join_path ''/work/repo'' (take k ?names) @ ''/.git''))"
  proof (intro allI impI)
    fix k :: nat assume "0 < k \<and> k \<le> length ?names"
    then have "k = 1 \<or> k = 2" by auto
    then show "\<not> is_git_entry (os_Stat ?w (join_path ''/work/repo'' (take k ?names) @ ''/.git''))"
      by (auto simp: example_world_def is_git_entry_def join_path_def)
  qed
  note t = subdirectory_resolves_like_root
      [where defaultBranch = "''main''",
       OF example_world_root(2) abs _ names marker below, unfolded j]
  have same: "GetVersionInfo ?w ''.'' ''main'' = GetVersionInfo ?w ''/work/repo'' ''main''"
    and loc: "findGitRoot (os_Stat ?w) ''/work/repo/pkg/version'' = Some ''/work/repo''"
    using t by blast+
  have clean: "\<not> hasUncommittedChanges ?r"
    by (simp add: hasUncommittedChanges_def example_repo_def clean_file_def)
  from GetVersionInfo_resolved
         [where w = ?w and repo = ?r and head = ?head and db = "''main''",
          OF example_world_root(2) example_world_findGitRoot(2) example_world_root(3)
             example_repo_fields(3)]
  obtain info where "GetVersionInfo ?w ''/work/repo'' ''main'' = Inr info"
    and "Version info = ''v1.0.0-5-ge7e38cf''"
    using example_describe_five_past [of "[clean_file]"] clean by (auto simp: branch_ref_def)
  with same loc show ?thesis by blast
qed

subsection \<open>Describe and reachable tags\<close>

text \<open>
  With lightweight tags only (every tag reference holds the hash of the commit it
  names), non-empty tag names, and a log that starts at the commit asked for, the
  describe string is empty exactly when no tag is reachable.
\<close>

lemma describe_empty_iff_no_lightweight_tag:
  assumes "repo_Tags repo = Inr tagRefs" "iter_err tagRefs = None"
    and "repo_Log repo h = Inr (h # older)"
    and "\<forall>ref \<in> set (iter_refs tagRefs). ref_Short ref \<noteq> ''''"
    and "\<forall>ref \<in> set (iter_refs tagRefs). tag_commit repo ref = ref_Hash ref"
  shows "fst (getGitDescribe repo h) = '''' \<longleftrightarrow> \<not> tag_reachable repo h"
proof -
  let ?tm = "buildTagMap (iter_refs tagRefs)"
  define cs where "cs = h # older"
  have log: "repo_Log repo h = Inr cs" using assms(3) by (simp add: cs_def)
  have h_in: "h \<in> set cs" by (simp add: cs_def)
  have reach: "tag_reachable repo h \<longleftrightarrow> (\<exists>c \<in> set cs. ?tm c \<noteq> None)"
  proof -
    have "tag_reachable repo h \<longleftrightarrow>
        (\<exists>ref \<in> set (iter_refs tagRefs). ref_Hash ref \<in> set cs)"
      using assms(5) by (simp add: tag_reachable_def assms(1) log)
    also have "\<dots> \<longleftrightarrow> (\<exists>c \<in> set cs. c \<in> dom ?tm)"
      unfolding buildTagMap_dom by blast
    finally show ?thesis by (simp add: dom_def)
  qed
  have names: "?tm c = Some t \<Longrightarrow> t \<noteq> []" for c t
    using buildTagMap_name [of "iter_refs tagRefs" c t] assms(4) by auto
  show ?thesis
  proof (cases "?tm h")
    case (Some t)
    from h_in Some reach have "tag_reachable repo h" by auto
    with getGitDescribe_exact [OF assms(1,2) Some] names [OF Some]
    show ?thesis by simp
  next
    case nokey: None
    note walk = getGitDescribe_walk [OF assms(1,2) nokey log]
    from walkLog_cases [of cs ?tm 0] show ?thesis
    proof
      assume "\<exists>pre c rest t. cs = pre @ c # rest \<and> (\<forall>x \<in> set pre. ?tm x = None)
         \<and> ?tm c = Some t \<and> walkLog ?tm cs 0 = (t, 0 + int (length pre))"
      then obtain pre c rest t where l: "cs = pre @ c # rest"
        and c: "?tm c = Some t"
        and w: "walkLog ?tm cs 0 = (t, 0 + int (length pre))"
        by (elim exE conjE)
      from l have "c \<in> set cs" by simp
      with c reach have r: "tag_reachable repo h" by auto
      from names [OF c] w have "fst (getGitDescribe repo h) \<noteq> []"
        unfolding walk by simp
      with r show ?thesis by simp
    next
      assume a: "(\<forall>x \<in> set cs. ?tm x = None)
         \<and> walkLog ?tm cs 0 = ([], 0 + int (length cs))"
      then have "\<not> tag_reachable repo h" using reach by simp
      moreover from a have "fst (getGitDescribe repo h) = []"
        unfolding walk by simp
      ultimately show ?thesis by simp
    qed
  qed
qed

text \<open>
  Claim C6 (the describe string is empty if and only if no tag is reachable from
  \<^verbatim>\<open>HEAD\<close>) at a repository whose tag is annotated: the tag names \<^verbatim>\<open>HEAD\<close>, so a tag is
  reachable at distance zero, and yet \<^const>\<open>getGitDescribe\<close> returns empty strings and the
  version falls back to \<open>{branchSlug}-g{commitShort}\<close>. The tag map is keyed by the hash
  the reference holds, which for an annotated tag is not a commit's.
\<close>

theorem annotated_tag_not_described:
  "tag_reachable annotated_repo head_commit
   \<and> getGitDescribe annotated_repo head_commit = ('''', '''')
   \<and> (\<exists>info. GetVersionInfo (example_world annotated_repo) ''.'' ''main'' = Inr info
         \<and> GitBranch info = DefaultBranch info \<and> IsDirty info = False
         \<and> GitDescribe info = '''' \<and> LatestTag info = ''''
         \<and> Version info = ''main-ge7e38cf'')"
proof -
  let ?head = "branch_ref ''main'' head_commit"
  have ne: "head_commit \<noteq> tag_object" "tag_object \<noteq> head_commit"
    by (simp_all add: head_commit_def tag_object_def)
  have reach: "tag_reachable annotated_repo head_commit"
    by (simp add: tag_reachable_def annotated_repo_def example_repo_def tag_commit_def
          tag_ref_def branch_ref_def)
  have d: "getGitDescribe annotated_repo head_commit = ('''', '''')"
    by (simp add: getGitDescribe_def annotated_repo_def example_repo_def buildTagMap_def
          tag_ref_def branch_ref_def ne)
  have hd: "repo_Head annotated_repo = Inr ?head"
    by (simp add: annotated_repo_def example_repo_def)
  have clean: "\<not> hasUncommittedChanges annotated_repo"
    by (simp add: hasUncommittedChanges_def annotated_repo_def example_repo_def clean_file_def)
  have slug: "createBranchSlug ''main'' = ''main''" by code_simp
  from GetVersionInfo_resolved
         [where w = "example_world annotated_repo" and repo = annotated_repo and head = ?head
            and db = "''main''",
          OF example_world_root(1) example_world_findGitRoot(1) example_world_root(3) hd]
  obtain info where "GetVersionInfo (example_world annotated_repo) ''.'' ''main'' = Inr info"
    and "GitBranch info = DefaultBranch info" "IsDirty info = False"
    and "GitDescribe info = ''''" "LatestTag info = ''''"
    and "Version info = ''main-ge7e38cf''"
    using d clean slug by (auto simp: branch_ref_def example_short_hashes)
  with reach d show ?thesis by blast
qed

end
